theory Spec2Isabelle
  imports Main "HOL-Library.Word"
begin

section \<open>Data model (models/agent.ts)\<close>

datatype AgentStatus = IDLE | RUNNING | PAUSED | COMPLETED | FAILED | ERROR

datatype Role = RoleUser | RoleAssistant | RoleFunction

text \<open>
  The text of a message is a JavaScript string, a sequence of UTF-16 code units: the
  component trims it, and \<open>trim\<close> depends on the code units. Identifiers, names and
  time strings are only stored and compared for equality.
\<close>

type_synonym jsstring = "16 word list"

text \<open>
  Time stamps are kept symbolic. A time string on the wire is either a string the server
  sent (\<open>Wire\<close>) or the result of \<open>toISOString()\<close> on the local clock value
  (\<open>ISOString\<close>, milliseconds). A \<open>Date\<close> is either \<open>new Date(string)\<close> or the clock
  value read by \<open>new Date()\<close>.
\<close>

datatype TimeString = Wire string | ISOString nat

datatype Date = DateParse string | DateAt nat

fun newDate :: "TimeString \<Rightarrow> Date" where
  "newDate (Wire s) = DateParse s"
| "newDate (ISOString t) = DateAt t"

text \<open>
  An element of \<open>chat_history\<close> has the fields \<open>role\<close>, \<open>content\<close>, \<open>timestamp\<close>
  and the optional \<open>name\<close>, written with the prefix \<open>entry_\<close> here; the fields
  \<open>id\<close>, \<open>name\<close> and \<open>context\<close> of \<open>Agent\<close> are written \<open>agent_id\<close>,
  \<open>agent_name\<close> and \<open>agent_context\<close>.
\<close>

record ChatEntry =
  entry_role :: Role
  entry_content :: jsstring
  entry_timestamp :: TimeString
  entry_name :: "string option"

record Context =
  chat_history :: "ChatEntry list option"

record Agent =
  agent_id :: string
  agent_name :: string
  description :: string
  prompt :: string
  tools :: "string list"
  hitl_enabled :: bool
  status :: AgentStatus
  created_at :: string
  updated_at :: string
  agent_context :: "Context option"

section \<open>Component state (test-agent.component.ts)\<close>

text \<open>An element of the component's \<open>messages\<close> array.\<close>

record Message =
  role :: Role
  content :: jsstring
  timestamp :: Date

datatype ChatResponse = ChatResponse (response_content: jsstring)

datatype HttpErrorResponse = HttpErrorResponse nat

text \<open>
  An HTTP request in flight, tagged with the observer that was subscribed to it:
  \<open>loadAgents\<close>, \<open>selectAgent\<close>, the inner request of the polling pipeline,
  \<open>startAgent\<close>, \<open>stopAgent\<close> and \<open>sendMessage\<close> (agent id and text).
\<close>

datatype Request =
    LoadAgentsReq
  | SelectReq string
  | PollReq string
  | StartReq string
  | StopReq string
  | ChatReq string jsstring

text \<open>
  The subscription returned by
  \<open>interval(5000).pipe(takeWhile(..), switchMap(..)).subscribe(..)\<close>:
  the captured \<open>agentId\<close>, the time at which the interval timer fires next (\<open>None\<close>
  once the timer is cleared), the request of the active inner observable of
  \<open>switchMap\<close>, and whether the subscription is closed.
\<close>

record Subscription =
  poll_agentId :: string
  timerDue :: "nat option"
  inner :: "nat option"
  sub_closed :: bool

text \<open>
  The fields of \<open>TestAgentComponent\<close>, followed by the environment they live in:
  the object store (\<open>Agent\<close> objects are references in JavaScript; a reference is an index
  into \<open>heap\<close>, and a new object is appended), the HTTP requests in flight, the counter
  of requests issued so far, the clock in milliseconds, the console and snack bar output,
  and the number of \<open>Subscription.unsubscribe()\<close> calls made.
\<close>

record World =
  agents :: "nat list"
  selectedAgent :: "nat option"
  messages :: "Message list"
  newMessage :: jsstring
  isLoading :: bool
  statusSubscription :: "Subscription option"
  heap :: "Agent list"
  pending :: "(nat \<times> Request) list"
  nextReq :: nat
  clock :: nat
  console :: "string list"
  snackBar :: "string list"
  unsubscribeCalls :: nat

definition init :: World where
  "init = \<lparr>agents = [], selectedAgent = None, messages = [], newMessage = [],
            isLoading = False, statusSubscription = None, heap = [], pending = [],
            nextReq = 0, clock = 0, console = [], snackBar = [], unsubscribeCalls = 0\<rparr>"

subsection \<open>HTTP requests\<close>

text \<open>Subscribing to an \<open>HttpClient\<close> observable sends the request.\<close>

definition http :: "Request \<Rightarrow> World \<Rightarrow> World" where
  "http r s = s\<lparr>pending := pending s @ [(nextReq s, r)], nextReq := Suc (nextReq s)\<rparr>"

text \<open>A request leaves \<open>pending\<close> when it is answered or when its subscriber unsubscribes.\<close>

definition settle :: "nat \<Rightarrow> World \<Rightarrow> World" where
  "settle rid s = s\<lparr>pending := filter (\<lambda>kv. fst kv \<noteq> rid) (pending s)\<rparr>"

subsection \<open>Strings\<close>

text \<open>
  \<open>String.prototype.trim\<close> removes the leading and trailing code units that are
  ECMAScript \<open>WhiteSpace\<close> or \<open>LineTerminator\<close>: tab, line feed, vertical tab, form
  feed, carriage return, space, no-break space, the other space separators
  (U+1680, U+2000 to U+200A, U+202F, U+205F, U+3000), the line and paragraph separators
  U+2028 and U+2029, and the byte order mark U+FEFF.
\<close>

definition isWhiteSpace :: "16 word \<Rightarrow> bool" where
  "isWhiteSpace c \<longleftrightarrow>
     c \<in> set [0x0009, 0x000A, 0x000B, 0x000C, 0x000D, 0x0020, 0x00A0, 0x1680,
              0x2028, 0x2029, 0x202F, 0x205F, 0x3000, 0xFEFF]
     \<or> (0x2000 \<le> c \<and> c \<le> 0x200A)"

definition trim :: "jsstring \<Rightarrow> jsstring" where
  "trim s = rev (dropWhile isWhiteSpace (rev (dropWhile isWhiteSpace s)))"

subsection \<open>Reading the selected agent\<close>

text \<open>\<open>agent.context?.chat_history\<close>\<close>

definition historyOf :: "Agent \<Rightarrow> ChatEntry list option" where
  "historyOf a = (case agent_context a of None \<Rightarrow> None | Some c \<Rightarrow> chat_history c)"

text \<open>\<open>this.selectedAgent?.id\<close>\<close>

definition selectedId :: "World \<Rightarrow> string option" where
  "selectedId s = (case selectedAgent s of None \<Rightarrow> None | Some r \<Rightarrow> Some (agent_id (heap s ! r)))"

subsection \<open>Status polling\<close>

text \<open>
  \<open>Subscription.unsubscribe()\<close>: on a subscription that is not closed yet it clears the
  interval timer and unsubscribes the inner request, which aborts it.
\<close>

definition unsubscribe :: "Subscription \<Rightarrow> World \<Rightarrow> World" where
  "unsubscribe sub s =
     (let s1 = s\<lparr>unsubscribeCalls := Suc (unsubscribeCalls s)\<rparr>
      in if sub_closed sub then s1
         else (case inner sub of None \<Rightarrow> s1 | Some rid \<Rightarrow> settle rid s1))"

definition stopStatusPolling :: "World \<Rightarrow> World" where
  "stopStatusPolling s =
     (case statusSubscription s of
        None \<Rightarrow> s
      | Some sub \<Rightarrow> (unsubscribe sub s)\<lparr>statusSubscription := None\<rparr>)"

text \<open>\<open>interval(5000)\<close> emits for the first time one period after it is subscribed.\<close>

definition startStatusPolling :: "string \<Rightarrow> World \<Rightarrow> World" where
  "startStatusPolling agentId s =
     (let s1 = stopStatusPolling s
      in s1\<lparr>statusSubscription :=
              Some \<lparr>poll_agentId = agentId, timerDue = Some (clock s1 + 5000),
                    inner = None, sub_closed = False\<rparr>\<rparr>)"

text \<open>
  The interval timer fires. The timer is periodic, so it is due again one period later.
  \<open>takeWhile\<close> passes the tick on while \<open>this.selectedAgent?.id === agentId\<close>;
  \<open>switchMap\<close> then unsubscribes the previous inner request and sends a new one.
  Otherwise \<open>takeWhile\<close> completes: the interval is unsubscribed, and the pipeline is
  complete as soon as no inner request is active.
\<close>

definition intervalFire :: "World \<Rightarrow> World" where
  "intervalFire s =
     (case statusSubscription s of
        None \<Rightarrow> s
      | Some sub \<Rightarrow>
          (case timerDue sub of
             None \<Rightarrow> s
           | Some due \<Rightarrow>
               if selectedId s = Some (poll_agentId sub) then
                 let s1 = (case inner sub of None \<Rightarrow> s | Some old \<Rightarrow> settle old s)
                 in (http (PollReq (poll_agentId sub)) s1)
                      \<lparr>statusSubscription :=
                         Some (sub\<lparr>timerDue := Some (due + 5000), inner := Some (nextReq s1)\<rparr>)\<rparr>
               else
                 s\<lparr>statusSubscription :=
                     Some (sub\<lparr>timerDue := None, sub_closed := (inner sub = None)\<rparr>)\<rparr>))"

definition timerReady :: "World \<Rightarrow> bool" where
  "timerReady s =
     (case statusSubscription s of
        None \<Rightarrow> False
      | Some sub \<Rightarrow> (case timerDue sub of None \<Rightarrow> False | Some due \<Rightarrow> due \<le> clock s))"

text \<open>One millisecond passes; \<open>advance d\<close> lets \<open>d\<close> milliseconds pass.\<close>

definition tick1 :: "World \<Rightarrow> World" where
  "tick1 s = (let s1 = s\<lparr>clock := Suc (clock s)\<rparr> in if timerReady s1 then intervalFire s1 else s1)"

fun advance :: "nat \<Rightarrow> World \<Rightarrow> World" where
  "advance 0 s = s"
| "advance (Suc d) s = advance d (tick1 s)"

text \<open>The observer of the polling pipeline.\<close>

definition poll_next :: "Agent \<Rightarrow> World \<Rightarrow> World" where
  "poll_next agent s =
     (case selectedAgent s of
        None \<Rightarrow> s
      | Some r \<Rightarrow> s\<lparr>heap := heap s @ [agent], selectedAgent := Some (length (heap s))\<rparr>)"

definition poll_error :: "World \<Rightarrow> World" where
  "poll_error s = s\<lparr>console := console s @ [''Error polling agent status:'']\<rparr>"

text \<open>
  The answer to the inner request \<open>rid\<close> of the polling pipeline. A value is handed to
  \<open>next\<close>, the inner observable completes, and the pipeline completes with it when
  \<open>takeWhile\<close> has completed before. An error is handed to \<open>error\<close> and closes the
  subscription, which clears the interval timer.
\<close>

definition pollResult :: "nat \<Rightarrow> HttpErrorResponse + Agent \<Rightarrow> World \<Rightarrow> World" where
  "pollResult rid res s =
     (case statusSubscription s of
        None \<Rightarrow> s
      | Some sub \<Rightarrow>
          if inner sub = Some rid \<and> \<not> sub_closed sub then
            (case res of
               Inr agent \<Rightarrow>
                 (poll_next agent (settle rid s))
                   \<lparr>statusSubscription :=
                      Some (sub\<lparr>inner := None, sub_closed := (timerDue sub = None)\<rparr>)\<rparr>
             | Inl err \<Rightarrow>
                 (poll_error (settle rid s))
                   \<lparr>statusSubscription :=
                      Some (sub\<lparr>timerDue := None, inner := None, sub_closed := True\<rparr>)\<rparr>)
          else s)"

subsection \<open>Selecting an agent\<close>

definition loadAgents :: "World \<Rightarrow> World" where
  "loadAgents s = http LoadAgentsReq s"

definition loadAgents_next :: "Agent list \<Rightarrow> World \<Rightarrow> World" where
  "loadAgents_next as s =
     s\<lparr>heap := heap s @ as, agents := [length (heap s) ..< length (heap s) + length as]\<rparr>"

definition loadAgents_error :: "World \<Rightarrow> World" where
  "loadAgents_error s =
     s\<lparr>console := console s @ [''Error loading agents:''],
       snackBar := snackBar s @ [''Failed to load agents'']\<rparr>"

definition selectAgent :: "string \<Rightarrow> World \<Rightarrow> World" where
  "selectAgent agentId s = http (SelectReq agentId) s"

definition toMessage :: "ChatEntry \<Rightarrow> Message" where
  "toMessage msg =
     \<lparr>role = entry_role msg, content = entry_content msg,
      timestamp = newDate (entry_timestamp msg)\<rparr>"

definition selectAgent_next :: "Agent \<Rightarrow> World \<Rightarrow> World" where
  "selectAgent_next agent s =
     (let s1 = s\<lparr>heap := heap s @ [agent], selectedAgent := Some (length (heap s))\<rparr>;
          s2 = s1\<lparr>messages := (case historyOf agent of
                                  Some h \<Rightarrow> map toMessage h
                                | None \<Rightarrow> [])\<rparr>
      in startStatusPolling (agent_id agent) s2)"

definition selectAgent_error :: "World \<Rightarrow> World" where
  "selectAgent_error s =
     s\<lparr>console := console s @ [''Error loading agent:''],
       snackBar := snackBar s @ [''Failed to load agent details'']\<rparr>"

definition ngOnInit :: "string option \<Rightarrow> World \<Rightarrow> World" where
  "ngOnInit agentId s =
     (let s1 = loadAgents s
      in case agentId of None \<Rightarrow> s1 | Some i \<Rightarrow> if i = [] then s1 else selectAgent i s1)"

definition ngOnDestroy :: "World \<Rightarrow> World" where
  "ngOnDestroy s = stopStatusPolling s"

text \<open>
  The template binds the drop-down both ways,
  \<open>[(ngModel)]="selectedAgent" (selectionChange)="selectAgent($event.value.id)"\<close>,
  over the options \<open>*ngFor="let agent of agents"\<close>: choosing an option stores that
  element of \<open>agents\<close> in \<open>selectedAgent\<close> and calls \<open>selectAgent\<close> with its id.
\<close>

definition selectionChange :: "nat \<Rightarrow> World \<Rightarrow> World" where
  "selectionChange r s =
     (if r \<in> set (agents s)
      then selectAgent (agent_id (heap s ! r)) (s\<lparr>selectedAgent := Some r\<rparr>)
      else s)"

subsection \<open>Lifecycle commands\<close>

definition startAgent :: "World \<Rightarrow> World" where
  "startAgent s =
     (case selectedAgent s of
        None \<Rightarrow> s
      | Some r \<Rightarrow> http (StartReq (agent_id (heap s ! r))) s)"

definition startAgent_next :: "Agent \<Rightarrow> World \<Rightarrow> World" where
  "startAgent_next agent s =
     s\<lparr>heap := heap s @ [agent], selectedAgent := Some (length (heap s)),
       snackBar := snackBar s @ [''Agent started successfully'']\<rparr>"

definition startAgent_error :: "World \<Rightarrow> World" where
  "startAgent_error s =
     s\<lparr>console := console s @ [''Error starting agent:''],
       snackBar := snackBar s @ [''Failed to start agent'']\<rparr>"

definition stopAgent :: "World \<Rightarrow> World" where
  "stopAgent s =
     (case selectedAgent s of
        None \<Rightarrow> s
      | Some r \<Rightarrow> http (StopReq (agent_id (heap s ! r))) s)"

definition stopAgent_next :: "Agent \<Rightarrow> World \<Rightarrow> World" where
  "stopAgent_next agent s =
     s\<lparr>heap := heap s @ [agent], selectedAgent := Some (length (heap s)),
       snackBar := snackBar s @ [''Agent stopped successfully'']\<rparr>"

definition stopAgent_error :: "World \<Rightarrow> World" where
  "stopAgent_error s =
     s\<lparr>console := console s @ [''Error stopping agent:''],
       snackBar := snackBar s @ [''Failed to stop agent'']\<rparr>"

subsection \<open>Chat\<close>

text \<open>\<open>chat_history.push(e)\<close> on an agent whose context has a chat history.\<close>

definition pushHistory :: "ChatEntry \<Rightarrow> Agent \<Rightarrow> Agent" where
  "pushHistory e a =
     (case historyOf a of
        None \<Rightarrow> a
      | Some h \<Rightarrow> a\<lparr>agent_context := Some \<lparr>chat_history = Some (h @ [e])\<rparr>\<rparr>)"

definition sendMessage :: "World \<Rightarrow> World" where
  "sendMessage s =
     (case selectedAgent s of
        None \<Rightarrow> s
      | Some r \<Rightarrow>
          if trim (newMessage s) = [] then s
          else
            let message = trim (newMessage s);
                now = clock s;
                s1 = s\<lparr>messages := messages s @
                                      [\<lparr>role = RoleUser, content = message, timestamp = DateAt now\<rparr>],
                       newMessage := [], isLoading := True\<rparr>;
                a = heap s1 ! r;
                a1 = (case agent_context a of
                        None \<Rightarrow> a\<lparr>agent_context := Some \<lparr>chat_history = None\<rparr>\<rparr>
                      | Some c \<Rightarrow> a);
                a2 = (case historyOf a1 of
                        None \<Rightarrow> a1\<lparr>agent_context := Some \<lparr>chat_history = Some []\<rparr>\<rparr>
                      | Some h \<Rightarrow> a1);
                a3 = pushHistory \<lparr>entry_role = RoleUser, entry_content = message,
                                  entry_timestamp = ISOString now, entry_name = None\<rparr> a2;
                s2 = s1\<lparr>heap := (heap s1)[r := a3]\<rparr>
            in http (ChatReq (agent_id a3) message) s2)"

definition sendMessage_next :: "ChatResponse \<Rightarrow> World \<Rightarrow> World" where
  "sendMessage_next response s =
     (let now = clock s;
          s1 = s\<lparr>messages := messages s @
                                [\<lparr>role = RoleAssistant, content = response_content response,
                                  timestamp = DateAt now\<rparr>]\<rparr>;
          s2 = (case selectedAgent s1 of
                  None \<Rightarrow> s1
                | Some r \<Rightarrow>
                    s1\<lparr>heap := (heap s1)
                         [r := pushHistory \<lparr>entry_role = RoleAssistant,
                                            entry_content = response_content response,
                                            entry_timestamp = ISOString now,
                                            entry_name = None\<rparr> (heap s1 ! r)]\<rparr>)
      in s2\<lparr>isLoading := False\<rparr>)"

definition sendMessage_error :: "World \<Rightarrow> World" where
  "sendMessage_error s =
     s\<lparr>console := console s @ [''Error sending message:''],
       snackBar := snackBar s @ [''Failed to send message''],
       isLoading := False\<rparr>"

definition canSendMessage :: "World \<Rightarrow> bool" where
  "canSendMessage s =
     (case selectedAgent s of
        None \<Rightarrow> False
      | Some r \<Rightarrow> status (heap s ! r) = RUNNING \<or> status (heap s ! r) = COMPLETED)"

section \<open>Events\<close>

text \<open>
  The component runs on one task queue. An event is a call of one of its methods, a
  template binding writing a field (\<open>SelectionChange\<close> for the drop-down, \<open>Input\<close> for
  the text field bound to \<open>newMessage\<close>), the answer to a request in flight, or time
  passing. An answer for a request that is not in flight, or of the wrong kind for it, is
  ignored.
\<close>

datatype Event =
    NgOnInit "string option"
  | NgOnDestroy
  | SelectAgent string
  | SelectionChange nat
  | Input jsstring
  | StartAgent
  | StopAgent
  | SendMessage
  | AgentsResult nat "HttpErrorResponse + Agent list"
  | AgentResult nat "HttpErrorResponse + Agent"
  | ChatResult nat "HttpErrorResponse + ChatResponse"
  | Elapse nat

definition agentResult :: "nat \<Rightarrow> HttpErrorResponse + Agent \<Rightarrow> World \<Rightarrow> World" where
  "agentResult rid res s =
     (case map_of (pending s) rid of
        Some (SelectReq i) \<Rightarrow>
          (case res of Inr agent \<Rightarrow> selectAgent_next agent (settle rid s)
                     | Inl err \<Rightarrow> selectAgent_error (settle rid s))
      | Some (PollReq i) \<Rightarrow> pollResult rid res s
      | Some (StartReq i) \<Rightarrow>
          (case res of Inr agent \<Rightarrow> startAgent_next agent (settle rid s)
                     | Inl err \<Rightarrow> startAgent_error (settle rid s))
      | Some (StopReq i) \<Rightarrow>
          (case res of Inr agent \<Rightarrow> stopAgent_next agent (settle rid s)
                     | Inl err \<Rightarrow> stopAgent_error (settle rid s))
      | _ \<Rightarrow> s)"

definition agentsResult :: "nat \<Rightarrow> HttpErrorResponse + Agent list \<Rightarrow> World \<Rightarrow> World" where
  "agentsResult rid res s =
     (case map_of (pending s) rid of
        Some LoadAgentsReq \<Rightarrow>
          (case res of Inr as \<Rightarrow> loadAgents_next as (settle rid s)
                     | Inl err \<Rightarrow> loadAgents_error (settle rid s))
      | _ \<Rightarrow> s)"

definition chatResult :: "nat \<Rightarrow> HttpErrorResponse + ChatResponse \<Rightarrow> World \<Rightarrow> World" where
  "chatResult rid res s =
     (case map_of (pending s) rid of
        Some (ChatReq i m) \<Rightarrow>
          (case res of Inr response \<Rightarrow> sendMessage_next response (settle rid s)
                     | Inl err \<Rightarrow> sendMessage_error (settle rid s))
      | _ \<Rightarrow> s)"

fun step :: "Event \<Rightarrow> World \<Rightarrow> World" where
  "step (NgOnInit agentId) s = ngOnInit agentId s"
| "step NgOnDestroy s = ngOnDestroy s"
| "step (SelectAgent agentId) s = selectAgent agentId s"
| "step (SelectionChange r) s = selectionChange r s"
| "step (Input text) s = s\<lparr>newMessage := text\<rparr>"
| "step StartAgent s = startAgent s"
| "step StopAgent s = stopAgent s"
| "step SendMessage s = sendMessage s"
| "step (AgentsResult rid res) s = agentsResult rid res s"
| "step (AgentResult rid res) s = agentResult rid res s"
| "step (ChatResult rid res) s = chatResult rid res s"
| "step (Elapse d) s = advance d s"

fun run :: "Event list \<Rightarrow> World \<Rightarrow> World" where
  "run [] s = s"
| "run (e # es) s = run es (step e s)"

text \<open>
  The events of the chat: the call of \<open>sendMessage\<close> and the answer to its request.
\<close>

fun chatEvent :: "Event \<Rightarrow> bool" where
  "chatEvent SendMessage = True"
| "chatEvent (ChatResult rid res) = True"
| "chatEvent e = False"

text \<open>
  A request that has been issued and is no longer in flight: it was answered, or aborted
  when its subscriber unsubscribed.
\<close>

definition gone :: "nat \<Rightarrow> World \<Rightarrow> bool" where
  "gone rid s \<longleftrightarrow> rid < nextReq s \<and> rid \<notin> fst ` set (pending s)"

section \<open>Example data\<close>

definition agentA :: Agent where
  "agentA = \<lparr>agent_id = ''a1'', agent_name = ''First'', description = [], prompt = [],
              tools = [], hitl_enabled = False, status = IDLE, created_at = [],
              updated_at = [], agent_context = None\<rparr>"

definition agentB :: Agent where
  "agentB = \<lparr>agent_id = ''b2'', agent_name = ''Second'', description = [], prompt = [],
              tools = [], hitl_enabled = False, status = RUNNING, created_at = [],
              updated_at = [], agent_context = None\<rparr>"

text \<open>The component after \<open>selectAgent("a1")\<close> has been answered with \<open>agentA\<close>.\<close>

definition selectedA :: World where
  "selectedA = run [SelectAgent ''a1'', AgentResult 0 (Inr agentA)] init"

text \<open>The texts \<open>hi\<close>, \<open>welcome\<close> and a draft of a no-break space and an ideographic space.\<close>

definition textHi :: jsstring where
  "textHi = [0x68, 0x69]"

definition textWelcome :: jsstring where
  "textWelcome = [0x77, 0x65, 0x6C, 0x63, 0x6F, 0x6D, 0x65]"

definition textBlank :: jsstring where
  "textBlank = [0x00A0, 0x3000]"

definition entryOld :: ChatEntry where
  "entryOld = \<lparr>entry_role = RoleAssistant, entry_content = textWelcome,
                entry_timestamp = Wire ''2024-01-01T00:00:00Z'', entry_name = None\<rparr>"

definition entryHi :: ChatEntry where
  "entryHi = \<lparr>entry_role = RoleUser, entry_content = textHi,
               entry_timestamp = Wire ''2024-01-01T00:00:05Z'', entry_name = None\<rparr>"

definition withHistory :: "ChatEntry list \<Rightarrow> Agent \<Rightarrow> Agent" where
  "withHistory h a = a\<lparr>agent_context := Some \<lparr>chat_history = Some h\<rparr>\<rparr>"

section \<open>Requests in flight\<close>

lemma map_of_settle:
  "k \<noteq> rid \<Longrightarrow> map_of (filter (\<lambda>kv. fst kv \<noteq> rid) xs) k = map_of xs k"
  by (induction xs) auto

section \<open>Time and the interval timer\<close>

lemma selectedA_eq:
  "selectedA = init\<lparr>selectedAgent := Some 0, heap := [agentA], nextReq := 1,
      statusSubscription := Some \<lparr>poll_agentId = ''a1'', timerDue = Some 5000, inner = None, sub_closed = False\<rparr>\<rparr>"
  by (simp add: selectedA_def init_def selectAgent_def http_def agentResult_def settle_def
      selectAgent_next_def startStatusPolling_def stopStatusPolling_def agentA_def historyOf_def)

lemma advance_add: "advance (m + n) s = advance n (advance m s)"
  by (induction m arbitrary: s) simp_all

lemma tick1_idle:
  assumes "\<And>sub due. statusSubscription s = Some sub \<Longrightarrow> timerDue sub = Some due \<Longrightarrow> Suc (clock s) < due"
  shows "tick1 s = s\<lparr>clock := Suc (clock s)\<rparr>"
proof -
  have "\<not> timerReady (s\<lparr>clock := Suc (clock s)\<rparr>)"
    using assms by (fastforce simp: timerReady_def split: option.splits)
  then show ?thesis by (simp add: tick1_def Let_def)
qed

lemma advance_idle:
  assumes "\<And>sub due. statusSubscription s = Some sub \<Longrightarrow> timerDue sub = Some due \<Longrightarrow> clock s + d < due"
  shows "advance d s = s\<lparr>clock := clock s + d\<rparr>"
  using assms
proof (induction d arbitrary: s)
  case 0
  then show ?case by simp
next
  case (Suc d)
  have t: "tick1 s = s\<lparr>clock := Suc (clock s)\<rparr>"
    using Suc.prems by (intro tick1_idle) fastforce
  have "advance d (s\<lparr>clock := Suc (clock s)\<rparr>) = (s\<lparr>clock := Suc (clock s)\<rparr>)\<lparr>clock := clock (s\<lparr>clock := Suc (clock s)\<rparr>) + d\<rparr>"
    using Suc.prems by (intro Suc.IH) fastforce
  with t show ?case by simp
qed

lemma advance_to_due:
  assumes "statusSubscription s = Some sub" and "timerDue sub = Some due" and "clock s < due"
  shows "advance (due - clock s) s = intervalFire (s\<lparr>clock := due\<rparr>)"
proof -
  obtain k where k: "due - clock s = k + 1" and kd: "clock s + k < due" and dk: "due = Suc (clock s + k)"
    using assms(3) by (metis Suc_eq_plus1 add_Suc_right le_add_diff_inverse less_imp_Suc_add less_or_eq_imp_le add_diff_cancel_left' lessI)
  have a: "advance k s = s\<lparr>clock := clock s + k\<rparr>"
    using assms kd by (intro advance_idle) simp
  have r: "timerReady (s\<lparr>clock := due\<rparr>)"
    using assms by (simp add: timerReady_def)
  have "advance (k + 1) s = tick1 (s\<lparr>clock := clock s + k\<rparr>)"
    by (simp only: advance_add a) simp
  also have "\<dots> = intervalFire (s\<lparr>clock := due\<rparr>)"
    using r dk by (simp add: tick1_def Let_def)
  finally show ?thesis using k by simp
qed

lemma selectedA_run: "run (SelectAgent ''a1'' # AgentResult 0 (Inr agentA) # es) init = run es selectedA"
  by (simp add: selectedA_def)

lemma selectedA_sub:
  "statusSubscription selectedA =
     Some \<lparr>poll_agentId = ''a1'', timerDue = Some 5000, inner = None, sub_closed = False\<rparr>"
  by (simp add: selectedA_eq)

lemma selectedA_id: "selectedId selectedA = Some ''a1''"
  by (simp add: selectedA_eq selectedId_def agentA_def)

lemma selectedA_idle: "d < 5000 \<Longrightarrow> advance d selectedA = selectedA\<lparr>clock := d\<rparr>"
proof -
  assume d: "d < 5000"
  have "advance d selectedA = selectedA\<lparr>clock := clock selectedA + d\<rparr>"
    by (rule advance_idle) (use d in \<open>auto simp: selectedA_eq init_def\<close>)
  then show ?thesis by (simp add: selectedA_eq init_def)
qed

lemma selectedA_5000:
  "advance 5000 selectedA =
     selectedA\<lparr>clock := 5000, pending := [(1, PollReq ''a1'')], nextReq := 2,
        statusSubscription := Some \<lparr>poll_agentId = ''a1'', timerDue = Some 10000,
                                      inner = Some 1, sub_closed = False\<rparr>\<rparr>"
proof -
  have "advance (5000 - clock selectedA) selectedA = intervalFire (selectedA\<lparr>clock := 5000\<rparr>)"
    by (rule advance_to_due[OF selectedA_sub]) (simp_all add: selectedA_eq init_def)
  moreover have "clock selectedA = 0" by (simp add: selectedA_eq init_def)
  moreover have "selectedId (selectedA\<lparr>clock := 5000\<rparr>) = Some ''a1''"
    by (simp add: selectedA_eq selectedId_def agentA_def)
  ultimately show ?thesis
    by (simp add: intervalFire_def selectedA_sub http_def) (simp add: selectedA_eq init_def)
qed

section \<open>Disposal\<close>

text \<open>
  C9. \<open>ngOnDestroy\<close> is idempotent: calling it twice in a row leaves the component in
  the same state as calling it once. The second call raises nothing and makes no further
  \<open>unsubscribe()\<close> call, and after the first call no polling subscription is held.
\<close>

theorem ngOnDestroy_idempotent:
  "run [NgOnDestroy, NgOnDestroy] s = run [NgOnDestroy] s
   \<and> unsubscribeCalls (run [NgOnDestroy, NgOnDestroy] s) = unsubscribeCalls (run [NgOnDestroy] s)
   \<and> statusSubscription (run [NgOnDestroy] s) = None"
  by (simp add: ngOnDestroy_def stopStatusPolling_def split: option.splits)

section \<open>The polling schedule\<close>

lemma tick_sends:
  assumes "statusSubscription s = Some sub" and "timerDue sub = Some due" and "clock s < due"
    and "selectedId s = Some (poll_agentId sub)"
  shows "advance (due - clock s) s =
           s\<lparr>clock := due,
             pending := (case inner sub of
                           None \<Rightarrow> pending s
                         | Some old \<Rightarrow> filter (\<lambda>kv. fst kv \<noteq> old) (pending s))
                        @ [(nextReq s, PollReq (poll_agentId sub))],
             nextReq := Suc (nextReq s),
             statusSubscription :=
               Some (sub\<lparr>timerDue := Some (due + 5000), inner := Some (nextReq s)\<rparr>)\<rparr>"
proof -
  have sid: "selectedId (s\<lparr>clock := due\<rparr>) = Some (poll_agentId sub)"
    using assms(4) by (auto simp: selectedId_def split: option.splits)
  show ?thesis
    using assms(1,2) sid
    by (simp add: advance_to_due[OF assms(1,2,3)] intervalFire_def settle_def http_def Let_def
        split: option.splits)
qed

lemma tick_completes:
  assumes "statusSubscription s = Some sub" and "timerDue sub = Some due" and "clock s < due"
    and "selectedId s \<noteq> Some (poll_agentId sub)"
  shows "advance (due - clock s) s =
           s\<lparr>clock := due,
             statusSubscription :=
               Some (sub\<lparr>timerDue := None, sub_closed := (inner sub = None)\<rparr>)\<rparr>"
proof -
  have sid: "selectedId (s\<lparr>clock := due\<rparr>) \<noteq> Some (poll_agentId sub)"
    using assms(4) by (auto simp: selectedId_def split: option.splits)
  show ?thesis
    using assms(1,2) sid
    by (simp add: advance_to_due[OF assms(1,2,3)] intervalFire_def)
qed

lemma startStatusPolling_fields:
  "statusSubscription (startStatusPolling agentId s) =
     Some \<lparr>poll_agentId = agentId, timerDue = Some (clock s + 5000),
           inner = None, sub_closed = False\<rparr>"
  "nextReq (startStatusPolling agentId s) = nextReq s"
  "set (pending (startStatusPolling agentId s)) \<subseteq> set (pending s)"
  "clock (startStatusPolling agentId s) = clock s"
  "selectedAgent (startStatusPolling agentId s) = selectedAgent s"
  "heap (startStatusPolling agentId s) = heap s"
  by (auto simp: startStatusPolling_def stopStatusPolling_def unsubscribe_def settle_def Let_def
      split: option.splits)

lemma selectAgent_next_polling:
  "statusSubscription (selectAgent_next agent s) =
     Some \<lparr>poll_agentId = agent_id agent, timerDue = Some (clock s + 5000),
           inner = None, sub_closed = False\<rparr>"
  "selectedId (selectAgent_next agent s) = Some (agent_id agent)"
  "clock (selectAgent_next agent s) = clock s"
  "nextReq (selectAgent_next agent s) = nextReq s"
  "set (pending (selectAgent_next agent s)) \<subseteq> set (pending s)"
  by (auto simp: selectAgent_next_def Let_def startStatusPolling_fields selectedId_def
      dest: subsetD[OF startStatusPolling_fields(3)])

lemma pollResult_answered:
  assumes "statusSubscription s = Some sub" and "inner sub = Some rid" and "\<not> sub_closed sub"
  shows "statusSubscription (pollResult rid (Inr agent) s) =
           Some (sub\<lparr>inner := None, sub_closed := (timerDue sub = None)\<rparr>)"
    and "clock (pollResult rid (Inr agent) s) = clock s"
    and "nextReq (pollResult rid (Inr agent) s) = nextReq s"
    and "selectedAgent s \<noteq> None \<Longrightarrow>
           selectedId (pollResult rid (Inr agent) s) = Some (agent_id agent)"
  using assms
  by (auto simp: pollResult_def poll_next_def settle_def selectedId_def split: option.splits)

text \<open>
  C7, as the code has it. \<open>startStatusPolling\<close> sends no request and arms the interval
  timer for 5000 ms after the moment it is called; so does a successful \<open>selectAgent\<close>
  fetch, after which the selected agent has the id the poller was started for. While a timer
  is armed for \<open>due\<close> nothing happens before \<open>due\<close>. At \<open>due\<close>, if the selected
  agent has the poller's id, exactly one request is sent, a \<open>getAgent\<close> for that id
  (a poll still unanswered is aborted), and the timer is armed for \<open>due + 5000\<close>;
  otherwise the timer is cleared and nothing is sent. A poll that is answered leaves the
  timer armed and makes the answer the selected agent. So the polls of a poller started at
  time \<open>t\<close> go out at \<open>t + 5000\<close>, \<open>t + 10000\<close>, ... and none goes out at \<open>t\<close>.
\<close>

theorem poll_schedule:
  "statusSubscription (startStatusPolling agentId s) =
     Some \<lparr>poll_agentId = agentId, timerDue = Some (clock s + 5000),
           inner = None, sub_closed = False\<rparr>
   \<and> nextReq (startStatusPolling agentId s) = nextReq s
   \<and> set (pending (startStatusPolling agentId s)) \<subseteq> set (pending s)
   \<and> clock (startStatusPolling agentId s) = clock s
   \<and> (map_of (pending s) rid = Some (SelectReq i) \<longrightarrow>
         statusSubscription (step (AgentResult rid (Inr agent)) s) =
           Some \<lparr>poll_agentId = agent_id agent, timerDue = Some (clock s + 5000),
                 inner = None, sub_closed = False\<rparr>
       \<and> selectedId (step (AgentResult rid (Inr agent)) s) = Some (agent_id agent)
       \<and> clock (step (AgentResult rid (Inr agent)) s) = clock s
       \<and> nextReq (step (AgentResult rid (Inr agent)) s) = nextReq s
       \<and> set (pending (step (AgentResult rid (Inr agent)) s)) \<subseteq> set (pending s))
   \<and> (statusSubscription s = Some sub \<and> timerDue sub = Some due \<and> clock s < due \<longrightarrow>
         (\<forall>d. clock s + d < due \<longrightarrow> step (Elapse d) s = s\<lparr>clock := clock s + d\<rparr>)
       \<and> (selectedId s = Some (poll_agentId sub) \<longrightarrow>
            step (Elapse (due - clock s)) s =
              s\<lparr>clock := due,
                pending := (case inner sub of
                              None \<Rightarrow> pending s
                            | Some old \<Rightarrow> filter (\<lambda>kv. fst kv \<noteq> old) (pending s))
                           @ [(nextReq s, PollReq (poll_agentId sub))],
                nextReq := Suc (nextReq s),
                statusSubscription :=
                  Some (sub\<lparr>timerDue := Some (due + 5000), inner := Some (nextReq s)\<rparr>)\<rparr>)
       \<and> (selectedId s \<noteq> Some (poll_agentId sub) \<longrightarrow>
            step (Elapse (due - clock s)) s =
              s\<lparr>clock := due,
                statusSubscription :=
                  Some (sub\<lparr>timerDue := None, sub_closed := (inner sub = None)\<rparr>)\<rparr>))
   \<and> (statusSubscription s = Some sub \<and> inner sub = Some rid \<and> \<not> sub_closed sub
        \<and> map_of (pending s) rid = Some (PollReq i) \<longrightarrow>
         statusSubscription (step (AgentResult rid (Inr agent)) s) =
           Some (sub\<lparr>inner := None, sub_closed := (timerDue sub = None)\<rparr>)
       \<and> clock (step (AgentResult rid (Inr agent)) s) = clock s
       \<and> nextReq (step (AgentResult rid (Inr agent)) s) = nextReq s
       \<and> (selectedAgent s \<noteq> None \<longrightarrow>
            selectedId (step (AgentResult rid (Inr agent)) s) = Some (agent_id agent)))"
proof -
  have sel: "map_of (pending s) rid = Some (SelectReq i) \<Longrightarrow>
         statusSubscription (agentResult rid (Inr agent) s) =
           Some \<lparr>poll_agentId = agent_id agent, timerDue = Some (clock s + 5000),
                 inner = None, sub_closed = False\<rparr>
       \<and> selectedId (agentResult rid (Inr agent) s) = Some (agent_id agent)
       \<and> clock (agentResult rid (Inr agent) s) = clock s
       \<and> nextReq (agentResult rid (Inr agent) s) = nextReq s
       \<and> set (pending (agentResult rid (Inr agent) s)) \<subseteq> set (pending s)"
    using selectAgent_next_polling(5)[of agent "settle rid s"]
    by (auto simp: agentResult_def selectAgent_next_polling settle_def)
  have idle: "statusSubscription s = Some sub \<Longrightarrow> timerDue sub = Some due \<Longrightarrow>
      clock s + d < due \<Longrightarrow> advance d s = s\<lparr>clock := clock s + d\<rparr>" for d
    by (rule advance_idle) auto
  have ans: "statusSubscription s = Some sub \<Longrightarrow> inner sub = Some rid \<Longrightarrow> \<not> sub_closed sub \<Longrightarrow>
      map_of (pending s) rid = Some (PollReq i) \<Longrightarrow>
         statusSubscription (agentResult rid (Inr agent) s) =
           Some (sub\<lparr>inner := None, sub_closed := (timerDue sub = None)\<rparr>)
       \<and> clock (agentResult rid (Inr agent) s) = clock s
       \<and> nextReq (agentResult rid (Inr agent) s) = nextReq s
       \<and> (selectedAgent s \<noteq> None \<longrightarrow>
            selectedId (agentResult rid (Inr agent) s) = Some (agent_id agent))"
    by (simp add: agentResult_def pollResult_answered)
  show ?thesis
    using sel idle ans tick_sends[of s sub due] tick_completes[of s sub due]
    by (simp add: startStatusPolling_fields)
qed

text \<open>
  After \<open>selectAgent("a1")\<close> has been answered nothing is sent for 4999 ms; the first
  poll goes out at 5000 ms; it is answered; the second poll goes out at 10000 ms.
\<close>

lemma selectedA_answered:
  "agentResult 1 (Inr agentA) (advance 5000 selectedA) =
     selectedA\<lparr>clock := 5000, nextReq := 2, heap := [agentA, agentA], selectedAgent := Some 1,
        statusSubscription := Some \<lparr>poll_agentId = ''a1'', timerDue = Some 10000,
                                      inner = None, sub_closed = False\<rparr>\<rparr>"
  by (simp add: selectedA_5000 agentResult_def pollResult_def poll_next_def settle_def)
     (simp add: selectedA_eq init_def)

theorem poll_schedule_witness:
  "map_of (pending (step (SelectAgent ''a1'') init)) 0 = Some (SelectReq ''a1'')
   \<and> nextReq (step (AgentResult 0 (Inr agentA)) (step (SelectAgent ''a1'') init)) = 1
   \<and> pending (step (AgentResult 0 (Inr agentA)) (step (SelectAgent ''a1'') init)) = []
   \<and> statusSubscription selectedA =
       Some \<lparr>poll_agentId = ''a1'', timerDue = Some 5000, inner = None, sub_closed = False\<rparr>
   \<and> clock selectedA < 5000 \<and> selectedId selectedA = Some ''a1''
   \<and> step (Elapse 4999) selectedA = selectedA\<lparr>clock := 4999\<rparr>
   \<and> pending (step (Elapse 5000) selectedA) = [(1, PollReq ''a1'')]
   \<and> statusSubscription (step (AgentResult 1 (Inr agentA)) (step (Elapse 5000) selectedA)) =
       Some \<lparr>poll_agentId = ''a1'', timerDue = Some 10000, inner = None, sub_closed = False\<rparr>
   \<and> pending (step (Elapse 5000)
                (step (AgentResult 1 (Inr agentA)) (step (Elapse 5000) selectedA)))
       = [(2, PollReq ''a1'')]
   \<and> clock (step (Elapse 5000)
                (step (AgentResult 1 (Inr agentA)) (step (Elapse 5000) selectedA))) = 10000"
proof -
  let ?sub = "\<lparr>poll_agentId = ''a1'', timerDue = Some 5000, inner = None, sub_closed = False\<rparr>"
  let ?s0 = "step (SelectAgent ''a1'') init"
  have p0: "map_of (pending ?s0) 0 = Some (SelectReq ''a1'')" "nextReq ?s0 = 1" "pending ?s0 = [(0, SelectReq ''a1'')]"
    by (simp_all add: selectAgent_def http_def init_def)
  have "nextReq (step (AgentResult 0 (Inr agentA)) ?s0) = nextReq ?s0"
    and sub0: "set (pending (step (AgentResult 0 (Inr agentA)) ?s0)) \<subseteq> set (pending ?s0)"
    using poll_schedule[of "''a1''" ?s0 0 "''a1''" agentA] p0(1) by blast+
  then have n0: "nextReq (step (AgentResult 0 (Inr agentA)) ?s0) = 1"
    using p0(2) by simp
  have e0: "pending (step (AgentResult 0 (Inr agentA)) ?s0) = []"
    using selectedA_eq by (simp add: selectedA_def init_def)
  have c: "clock selectedA = 0" and n: "nextReq selectedA = 1" and pe: "pending selectedA = []"
    by (simp_all add: selectedA_eq init_def)
  have lt: "clock selectedA < 5000" by (simp add: c)
  have tick1: "(\<forall>d. clock selectedA + d < 5000 \<longrightarrow>
                  step (Elapse d) selectedA = selectedA\<lparr>clock := clock selectedA + d\<rparr>)"
    and fire1: "step (Elapse (5000 - clock selectedA)) selectedA =
        selectedA\<lparr>clock := 5000,
          pending := (case inner ?sub of None \<Rightarrow> pending selectedA
                      | Some old \<Rightarrow> filter (\<lambda>kv. fst kv \<noteq> old) (pending selectedA))
                     @ [(nextReq selectedA, PollReq (poll_agentId ?sub))],
          nextReq := Suc (nextReq selectedA),
          statusSubscription :=
            Some (?sub\<lparr>timerDue := Some (5000 + 5000), inner := Some (nextReq selectedA)\<rparr>)\<rparr>"
    using poll_schedule[of "''a1''" selectedA 0 "''a1''" agentA ?sub 5000] selectedA_sub lt selectedA_id
    by simp_all
  have i1: "step (Elapse 4999) selectedA = selectedA\<lparr>clock := 4999\<rparr>"
    using tick1 c by simp
  have f1: "step (Elapse 5000) selectedA =
        selectedA\<lparr>clock := 5000, pending := [(1, PollReq ''a1'')], nextReq := 2,
          statusSubscription := Some \<lparr>poll_agentId = ''a1'', timerDue = Some 10000,
                                        inner = Some 1, sub_closed = False\<rparr>\<rparr>"
    using fire1 by (simp add: c n pe)
  let ?s1 = "step (Elapse 5000) selectedA"
  let ?sub1 = "\<lparr>poll_agentId = ''a1'', timerDue = Some 10000, inner = Some 1, sub_closed = False\<rparr>"
  have a1: "statusSubscription ?s1 = Some ?sub1" "map_of (pending ?s1) 1 = Some (PollReq ''a1'')"
      "selectedAgent ?s1 \<noteq> None"
    unfolding f1 by (simp_all add: selectedA_eq)
  have ans: "statusSubscription (step (AgentResult 1 (Inr agentA)) ?s1) =
           Some (?sub1\<lparr>inner := None, sub_closed := (timerDue ?sub1 = None)\<rparr>)"
    using poll_schedule[of "''a1''" ?s1 1 "''a1''" agentA ?sub1 10000] a1 by simp
  let ?s2 = "step (AgentResult 1 (Inr agentA)) ?s1"
  let ?sub2 = "\<lparr>poll_agentId = ''a1'', timerDue = Some 10000, inner = None, sub_closed = False\<rparr>"
  have s2: "?s2 = selectedA\<lparr>clock := 5000, nextReq := 2, heap := [agentA, agentA],
        selectedAgent := Some 1, statusSubscription := Some ?sub2\<rparr>"
    using selectedA_answered by simp
  have a2: "statusSubscription ?s2 = Some ?sub2" "clock ?s2 = 5000" "selectedId ?s2 = Some ''a1''"
      "pending ?s2 = []" "nextReq ?s2 = 2"
    unfolding s2 by (simp_all add: selectedId_def agentA_def selectedA_eq init_def)
  have big: "step (Elapse (10000 - clock ?s2)) ?s2 =
        ?s2\<lparr>clock := 10000,
          pending := (case inner ?sub2 of None \<Rightarrow> pending ?s2
                      | Some old \<Rightarrow> filter (\<lambda>kv. fst kv \<noteq> old) (pending ?s2))
                     @ [(nextReq ?s2, PollReq (poll_agentId ?sub2))],
          nextReq := Suc (nextReq ?s2),
          statusSubscription :=
            Some (?sub2\<lparr>timerDue := Some (10000 + 5000), inner := Some (nextReq ?s2)\<rparr>)\<rparr>"
    using poll_schedule[of "''a1''" ?s2 0 "''a1''" agentA ?sub2 10000] a2(1,2,3)
    by simp
  have f2: "pending (step (Elapse 5000) ?s2) = [(2, PollReq ''a1'')]"
      "clock (step (Elapse 5000) ?s2) = 10000"
    using a2(2,4,5) big by simp_all
  show ?thesis
    using p0(1) n0 e0 selectedA_sub lt selectedA_id i1 f1 ans f2 by simp
qed

text \<open>
  C7 as stated asks for a first poll without delay. After \<open>selectAgent("a1")\<close> has been
  answered, the only request ever sent is the fetch of the selection itself (number 0);
  4999 ms later still no poll has been sent, and the first one goes out at 5000 ms.
\<close>

theorem poll_schedule_counterexample:
  "pending (run [SelectAgent ''a1'', AgentResult 0 (Inr agentA)] init) = []
   \<and> nextReq (run [SelectAgent ''a1'', AgentResult 0 (Inr agentA)] init) = 1
   \<and> pending (run [SelectAgent ''a1'', AgentResult 0 (Inr agentA), Elapse 4999] init) = []
   \<and> nextReq (run [SelectAgent ''a1'', AgentResult 0 (Inr agentA), Elapse 4999] init) = 1
   \<and> pending (run [SelectAgent ''a1'', AgentResult 0 (Inr agentA), Elapse 5000] init)
        = [(1, PollReq ''a1'')]"
  unfolding selectedA_run
  by (simp add: selectedA_idle selectedA_5000) (simp add: selectedA_eq init_def)

section \<open>Selection\<close>

lemma selectAgent_next_fields:
  "selectedAgent (selectAgent_next agent s) = Some (length (heap s))"
  "heap (selectAgent_next agent s) = heap s @ [agent]"
  "messages (selectAgent_next agent s) =
     (case historyOf agent of Some h \<Rightarrow> map toMessage h | None \<Rightarrow> [])"
  "statusSubscription (selectAgent_next agent s) =
     Some \<lparr>poll_agentId = agent_id agent, timerDue = Some (clock s + 5000),
           inner = None, sub_closed = False\<rparr>"
  by (simp_all add: selectAgent_next_def startStatusPolling_def stopStatusPolling_def
      unsubscribe_def settle_def Let_def split: option.splits)

lemma selectAgent_next_keeps:
  assumes "\<forall>sub. statusSubscription s = Some sub \<longrightarrow> inner sub \<noteq> Some k"
  shows "map_of (pending (selectAgent_next agent s)) k = map_of (pending s) k"
  using assms
  by (auto simp: selectAgent_next_def startStatusPolling_def stopStatusPolling_def
      unsubscribe_def settle_def Let_def map_of_settle split: option.splits)

lemma agentResult_select:
  "map_of (pending s) rid = Some (SelectReq i) \<Longrightarrow>
   agentResult rid (Inr agent) s = selectAgent_next agent (settle rid s)"
  by (simp add: agentResult_def)

text \<open>
  C1, as the code has it. The result of a \<open>selectAgent\<close> fetch is applied when it
  arrives, whichever call it belongs to: of two fetches in flight, the one answered last
  determines the selected snapshot, the transcript and the poller, whether it was issued
  first or second. The component keeps no counter or other record of the latest call.
\<close>

theorem last_response_wins:
  assumes "map_of (pending s) ra = Some (SelectReq ia)"
    and "map_of (pending s) rb = Some (SelectReq ib)"
    and "ra \<noteq> rb"
    and "\<forall>sub. statusSubscription s = Some sub \<longrightarrow> inner sub \<noteq> Some ra"
  shows "selectedId (run [AgentResult rb (Inr b), AgentResult ra (Inr a)] s) = Some (agent_id a)
       \<and> selectedAgent (run [AgentResult rb (Inr b), AgentResult ra (Inr a)] s)
           = Some (Suc (length (heap s)))
       \<and> heap (run [AgentResult rb (Inr b), AgentResult ra (Inr a)] s) = heap s @ [b, a]
       \<and> messages (run [AgentResult rb (Inr b), AgentResult ra (Inr a)] s)
           = (case historyOf a of Some h \<Rightarrow> map toMessage h | None \<Rightarrow> [])
       \<and> statusSubscription (run [AgentResult rb (Inr b), AgentResult ra (Inr a)] s)
           = Some \<lparr>poll_agentId = agent_id a, timerDue = Some (clock s + 5000),
                   inner = None, sub_closed = False\<rparr>"
proof -
  let ?s1 = "agentResult rb (Inr b) s"
  have s1: "?s1 = selectAgent_next b (settle rb s)"
    using assms(2) by (rule agentResult_select)
  have "map_of (pending (settle rb s)) ra = Some (SelectReq ia)"
    using assms(1,3) by (simp add: settle_def map_of_settle)
  moreover have "\<forall>sub. statusSubscription (settle rb s) = Some sub \<longrightarrow> inner sub \<noteq> Some ra"
    using assms(4) by (simp add: settle_def)
  ultimately have p: "map_of (pending ?s1) ra = Some (SelectReq ia)"
    by (simp add: s1 selectAgent_next_keeps)
  have s2: "agentResult ra (Inr a) ?s1 = selectAgent_next a (settle ra ?s1)"
    using p by (rule agentResult_select)
  have h1: "heap ?s1 = heap s @ [b]" and c1: "clock ?s1 = clock s"
    by (simp_all add: s1 selectAgent_next_fields settle_def selectAgent_next_def
        startStatusPolling_def stopStatusPolling_def unsubscribe_def Let_def split: option.splits)
  show ?thesis
    by (simp add: s2 selectAgent_next_fields selectedId_def settle_def h1 c1 nth_append)
qed

theorem last_response_wins_witness:
  "map_of (pending (run [SelectAgent ''a1'', SelectAgent ''b2''] init)) 0 = Some (SelectReq ''a1'')
   \<and> map_of (pending (run [SelectAgent ''a1'', SelectAgent ''b2''] init)) 1 = Some (SelectReq ''b2'')
   \<and> statusSubscription (run [SelectAgent ''a1'', SelectAgent ''b2''] init) = None
   \<and> selectedId (run [AgentResult 1 (Inr agentB), AgentResult 0 (Inr agentA)]
                   (run [SelectAgent ''a1'', SelectAgent ''b2''] init)) = Some ''a1''"
proof -
  let ?s = "run [SelectAgent ''a1'', SelectAgent ''b2''] init"
  have p: "map_of (pending ?s) 0 = Some (SelectReq ''a1'')"
      "map_of (pending ?s) 1 = Some (SelectReq ''b2'')"
      "statusSubscription ?s = None"
    by (simp_all add: selectAgent_def http_def init_def)
  have n: "(0::nat) \<noteq> 1" by simp
  have i: "\<forall>sub. statusSubscription ?s = Some sub \<longrightarrow> inner sub \<noteq> Some 0"
    using p(3) by simp
  show ?thesis
    using last_response_wins[OF p(1) p(2) n i, of agentB agentA] p
    by (simp add: agentA_def)
qed

text \<open>
  C1 as stated asks that only the most recent call's result be applied. With
  \<open>selectAgent("a1")\<close> then \<open>selectAgent("b2")\<close> and the answer for \<open>a1\<close>
  arriving after the one for \<open>b2\<close>, the component first shows \<open>b2\<close> and then ends
  with \<open>a1\<close> selected and polled.
\<close>

theorem last_selection_wins_counterexample:
  "selectedId (run [SelectAgent ''a1'', SelectAgent ''b2'',
                    AgentResult 1 (Inr agentB), AgentResult 0 (Inr agentA)] init) = Some ''a1''
   \<and> selectedId (run [SelectAgent ''a1'', SelectAgent ''b2'',
                    AgentResult 1 (Inr agentB)] init) = Some ''b2''
   \<and> statusSubscription (run [SelectAgent ''a1'', SelectAgent ''b2'',
                    AgentResult 1 (Inr agentB), AgentResult 0 (Inr agentA)] init)
       = Some \<lparr>poll_agentId = ''a1'', timerDue = Some 5000, inner = None, sub_closed = False\<rparr>"
  by (simp add: selectAgent_def http_def init_def agentResult_def settle_def
      selectAgent_next_def startStatusPolling_def stopStatusPolling_def unsubscribe_def
      selectedId_def agentA_def agentB_def historyOf_def)

section \<open>A failed poll\<close>

lemma agentResult_poll:
  "map_of (pending s) rid = Some (PollReq i) \<Longrightarrow> agentResult rid res s = pollResult rid res s"
  by (simp add: agentResult_def)

text \<open>
  C3, as the code has it. An error of the inner request is passed by \<open>switchMap\<close> to
  the observer's \<open>error\<close> handler, which logs it; the subscription is then closed and its
  timer cleared. The selected agent stays as it is, no request is sent, and from then on
  time passes without any further poll. (A later successful \<open>selectAgent\<close> starts a
  new poller.)
\<close>

theorem poll_error_stops_polling:
  assumes "statusSubscription s = Some sub" and "inner sub = Some rid"
    and "\<not> sub_closed sub" and "map_of (pending s) rid = Some (PollReq i)"
  shows "statusSubscription (step (AgentResult rid (Inl err)) s)
           = Some (sub\<lparr>timerDue := None, inner := None, sub_closed := True\<rparr>)
       \<and> console (step (AgentResult rid (Inl err)) s)
           = console s @ [''Error polling agent status:'']
       \<and> selectedAgent (step (AgentResult rid (Inl err)) s) = selectedAgent s
       \<and> nextReq (step (AgentResult rid (Inl err)) s) = nextReq s
       \<and> (\<forall>d. step (Elapse d) (step (AgentResult rid (Inl err)) s)
                = (step (AgentResult rid (Inl err)) s)\<lparr>clock := clock s + d\<rparr>)"
proof -
  let ?s' = "agentResult rid (Inl err) s"
  have e: "?s' = (poll_error (settle rid s))
                   \<lparr>statusSubscription :=
                      Some (sub\<lparr>timerDue := None, inner := None, sub_closed := True\<rparr>)\<rparr>"
    using assms by (simp add: agentResult_poll pollResult_def)
  have c: "clock ?s' = clock s"
    by (simp add: e poll_error_def settle_def)
  have "advance d ?s' = ?s'\<lparr>clock := clock ?s' + d\<rparr>" for d
    by (rule advance_idle) (auto simp: e)
  then have idle: "\<forall>d. advance d ?s' = ?s'\<lparr>clock := clock s + d\<rparr>"
    by (simp add: c)
  have rest: "statusSubscription ?s' = Some (sub\<lparr>timerDue := None, inner := None, sub_closed := True\<rparr>)"
     "console ?s' = console s @ [''Error polling agent status:'']"
     "selectedAgent ?s' = selectedAgent s" "nextReq ?s' = nextReq s"
    by (simp_all add: e poll_error_def settle_def)
  show ?thesis
    using idle rest by simp
qed

theorem poll_error_stops_polling_witness:
  "statusSubscription (advance 5000 selectedA)
     = Some \<lparr>poll_agentId = ''a1'', timerDue = Some 10000, inner = Some 1, sub_closed = False\<rparr>
   \<and> map_of (pending (advance 5000 selectedA)) 1 = Some (PollReq ''a1'')
   \<and> statusSubscription (step (AgentResult 1 (Inl (HttpErrorResponse 503))) (advance 5000 selectedA))
     = Some \<lparr>poll_agentId = ''a1'', timerDue = None, inner = None, sub_closed = True\<rparr>
   \<and> step (Elapse 60000) (step (AgentResult 1 (Inl (HttpErrorResponse 503))) (advance 5000 selectedA))
     = (step (AgentResult 1 (Inl (HttpErrorResponse 503))) (advance 5000 selectedA))\<lparr>clock := 65000\<rparr>"
proof -
  let ?s = "advance 5000 selectedA"
  let ?sub = "\<lparr>poll_agentId = ''a1'', timerDue = Some 10000, inner = Some 1, sub_closed = False\<rparr>"
  have a: "statusSubscription ?s = Some ?sub" by (simp add: selectedA_5000)
  have b: "inner ?sub = Some 1" "\<not> sub_closed ?sub" by simp_all
  have p: "map_of (pending ?s) 1 = Some (PollReq ''a1'')" by (simp add: selectedA_5000)
  have c: "clock ?s = 5000" by (simp add: selectedA_5000)
  show ?thesis
    using poll_error_stops_polling[OF a b p, of "HttpErrorResponse 503"] a p c
    by simp
qed

text \<open>
  C3 as stated asks that polling goes on after a failed poll. After the first poll of
  \<open>a1\<close> fails, a whole minute passes with \<open>a1\<close> still selected and no request is
  sent: the two requests sent so far (numbers 0 and 1) remain the only ones.
\<close>

theorem poll_failure_resilience_counterexample:
  "nextReq (run [SelectAgent ''a1'', AgentResult 0 (Inr agentA), Elapse 5000,
                 AgentResult 1 (Inl (HttpErrorResponse 503)), Elapse 60000] init) = 2
   \<and> pending (run [SelectAgent ''a1'', AgentResult 0 (Inr agentA), Elapse 5000,
                 AgentResult 1 (Inl (HttpErrorResponse 503)), Elapse 60000] init) = []
   \<and> clock (run [SelectAgent ''a1'', AgentResult 0 (Inr agentA), Elapse 5000,
                 AgentResult 1 (Inl (HttpErrorResponse 503)), Elapse 60000] init) = 65000
   \<and> selectedId (run [SelectAgent ''a1'', AgentResult 0 (Inr agentA), Elapse 5000,
                 AgentResult 1 (Inl (HttpErrorResponse 503)), Elapse 60000] init) = Some ''a1''"
proof -
  let ?f = "agentResult 1 (Inl (HttpErrorResponse 503)) (advance 5000 selectedA)"
  have f: "?f = selectedA\<lparr>clock := 5000, pending := [], nextReq := 2,
        console := [''Error polling agent status:''],
        statusSubscription := Some \<lparr>poll_agentId = ''a1'', timerDue = None,
                                      inner = None, sub_closed = True\<rparr>\<rparr>"
    by (simp add: selectedA_5000 agentResult_def pollResult_def poll_error_def settle_def)
       (simp add: selectedA_eq init_def)
  have r: "run [Elapse 5000, AgentResult 1 (Inl (HttpErrorResponse 503)), Elapse 60000] selectedA
             = advance 60000 ?f"
    by simp
  have "advance 60000 ?f = ?f\<lparr>clock := clock ?f + 60000\<rparr>"
    unfolding f by (rule advance_idle) auto
  then have g: "advance 60000 ?f = selectedA\<lparr>clock := 65000, pending := [], nextReq := 2,
        console := [''Error polling agent status:''],
        statusSubscription := Some \<lparr>poll_agentId = ''a1'', timerDue = None,
                                      inner = None, sub_closed = True\<rparr>\<rparr>"
    unfolding f by simp
  show ?thesis
    unfolding selectedA_run r g
    by (simp add: selectedA_eq init_def selectedId_def agentA_def)
qed

section \<open>Lifecycle commands\<close>

text \<open>
  C5, as the code has it. \<open>startAgent\<close> and \<open>stopAgent\<close> check only whether an agent
  is selected. With no agent selected the call does nothing. In every state with a selected
  agent, whatever is in flight, the call sends its request for the selected agent's id and
  changes nothing else; no command is rejected.
\<close>

theorem lifecycle_commands_not_exclusive:
  "(selectedAgent s = None \<longrightarrow> step StartAgent s = s \<and> step StopAgent s = s)
   \<and> (\<forall>r. selectedAgent s = Some r \<longrightarrow>
          step StartAgent s =
            s\<lparr>pending := pending s @ [(nextReq s, StartReq (agent_id (heap s ! r)))],
              nextReq := Suc (nextReq s)\<rparr>
        \<and> step StopAgent s =
            s\<lparr>pending := pending s @ [(nextReq s, StopReq (agent_id (heap s ! r)))],
              nextReq := Suc (nextReq s)\<rparr>)"
  by (simp add: startAgent_def stopAgent_def http_def)

theorem lifecycle_commands_not_exclusive_witness:
  "selectedAgent init = None
   \<and> step StartAgent init = init \<and> step StopAgent init = init
   \<and> selectedAgent (step StartAgent selectedA) = Some 0
   \<and> pending (step StartAgent selectedA) = [(1, StartReq ''a1'')]
   \<and> pending (step StartAgent (step StartAgent selectedA)) = [(1, StartReq ''a1''), (2, StartReq ''a1'')]
   \<and> pending (step StopAgent (step StartAgent selectedA)) = [(1, StartReq ''a1''), (2, StopReq ''a1'')]"
proof -
  let ?t = "selectedA\<lparr>pending := [(1, StartReq ''a1'')], nextReq := 2\<rparr>"
  have b: "startAgent selectedA = ?t"
    by (simp add: startAgent_def http_def selectedA_eq init_def agentA_def)
  have a: "selectedAgent ?t = Some 0"
    by (simp add: selectedA_eq)
  have h: "agent_id (heap ?t ! 0) = ''a1''" "pending ?t = [(1, StartReq ''a1'')]" "nextReq ?t = 2"
    by (simp_all add: selectedA_eq agentA_def)
  have i: "selectedAgent init = None"
    by (simp add: init_def)
  have "step StartAgent init = init" and "step StopAgent init = init"
    using lifecycle_commands_not_exclusive[of init] i by blast+
  moreover
  have "pending (step StartAgent ?t) = pending ?t @ [(nextReq ?t, StartReq (agent_id (heap ?t ! 0)))]"
    and "pending (step StopAgent ?t) = pending ?t @ [(nextReq ?t, StopReq (agent_id (heap ?t ! 0)))]"
    using lifecycle_commands_not_exclusive[of ?t] a by simp_all
  then have "pending (step StartAgent ?t) = [(1, StartReq ''a1''), (2, StartReq ''a1'')]"
    and "pending (step StopAgent ?t) = [(1, StartReq ''a1''), (2, StopReq ''a1'')]"
    by (simp_all only: h) simp_all
  moreover have "step StartAgent selectedA = ?t"
    using b by simp
  ultimately show ?thesis
    using a h(2) i by simp
qed

text \<open>
  C5 as stated asks that a second command be rejected while the first is outstanding.
  Two \<open>startAgent\<close> calls in a row put two start requests for \<open>a1\<close> in flight.
\<close>

theorem command_mutual_exclusion_counterexample:
  "pending (run [SelectAgent ''a1'', AgentResult 0 (Inr agentA), StartAgent, StartAgent] init)
     = [(1, StartReq ''a1''), (2, StartReq ''a1'')]
   \<and> nextReq (run [SelectAgent ''a1'', AgentResult 0 (Inr agentA), StartAgent] init) = 2
   \<and> nextReq (run [SelectAgent ''a1'', AgentResult 0 (Inr agentA), StartAgent, StartAgent] init) = 3"
  unfolding selectedA_run
  by (simp add: startAgent_def stopAgent_def http_def selectedA_eq init_def agentA_def)

section \<open>Sending a message\<close>

lemma pushHistory_id: "agent_id (pushHistory e a) = agent_id a"
  by (simp add: pushHistory_def split: option.splits)

lemma sendMessage_sends:
  assumes "selectedAgent s = Some r" and "trim (newMessage s) \<noteq> []"
  shows "pending (sendMessage s) =
           pending s @ [(nextReq s, ChatReq (agent_id (heap s ! r)) (trim (newMessage s)))]"
    and "nextReq (sendMessage s) = Suc (nextReq s)"
    and "messages (sendMessage s) =
           messages s @ [\<lparr>role = RoleUser, content = trim (newMessage s), timestamp = DateAt (clock s)\<rparr>]"
    and "isLoading (sendMessage s)" and "newMessage (sendMessage s) = []"
  using assms
  by (simp_all add: sendMessage_def Let_def http_def pushHistory_id split: option.splits)

lemma sendMessage_noop:
  "selectedAgent s = None \<or> trim (newMessage s) = [] \<Longrightarrow> sendMessage s = s"
  by (auto simp: sendMessage_def split: option.splits)

lemma trim_hi: "trim textHi = textHi"
  by (simp add: trim_def isWhiteSpace_def textHi_def)

lemma textHi_ne: "textHi \<noteq> []"
  by (simp add: textHi_def)

lemma trim_blank: "trim textBlank = []"
  by (simp add: trim_def isWhiteSpace_def textBlank_def)

text \<open>
  C4, as the code has it. \<open>sendMessage\<close> does nothing, and signals nothing, exactly
  when no agent is selected or the trimmed text is empty. Otherwise, whatever the status of
  the selected agent, it appends the user message to the transcript, sets the loading flag
  and sends the chat request with the selected agent's id and the trimmed text. The status
  policy is \<open>canSendMessage\<close>, true exactly when the selected agent is \<open>RUNNING\<close> or
  \<open>COMPLETED\<close>; \<open>sendMessage\<close> does not consult it.
\<close>

theorem sendMessage_guard:
  "(step SendMessage s = s \<longleftrightarrow> selectedAgent s = None \<or> trim (newMessage s) = [])
   \<and> (\<forall>r. selectedAgent s = Some r \<and> trim (newMessage s) \<noteq> [] \<longrightarrow>
          pending (step SendMessage s) =
            pending s @ [(nextReq s, ChatReq (agent_id (heap s ! r)) (trim (newMessage s)))]
        \<and> messages (step SendMessage s) =
            messages s @ [\<lparr>role = RoleUser, content = trim (newMessage s),
                           timestamp = DateAt (clock s)\<rparr>]
        \<and> isLoading (step SendMessage s))
   \<and> (canSendMessage s \<longleftrightarrow>
        (\<exists>r. selectedAgent s = Some r \<and> status (heap s ! r) \<in> {RUNNING, COMPLETED}))"
proof -
  have "sendMessage s \<noteq> s" if "selectedAgent s = Some r" "trim (newMessage s) \<noteq> []" for r
    using sendMessage_sends(2)[OF that] by (metis n_not_Suc_n)
  then have a: "sendMessage s = s \<longleftrightarrow> selectedAgent s = None \<or> trim (newMessage s) = []"
    using sendMessage_noop[of s] by (cases "selectedAgent s") auto
  have c: "canSendMessage s \<longleftrightarrow>
        (\<exists>r. selectedAgent s = Some r \<and> status (heap s ! r) \<in> {RUNNING, COMPLETED})"
    by (auto simp: canSendMessage_def split: option.splits)
  show ?thesis
    using a c sendMessage_sends by simp
qed

theorem sendMessage_guard_witness:
  "selectedAgent (step (Input textHi) selectedA) = Some 0
   \<and> trim (newMessage (step (Input textHi) selectedA)) \<noteq> []
   \<and> step SendMessage (step (Input textHi) selectedA) \<noteq> step (Input textHi) selectedA
   \<and> pending (step SendMessage (step (Input textHi) selectedA)) = [(1, ChatReq ''a1'' textHi)]
   \<and> \<not> canSendMessage (step (Input textHi) selectedA)
   \<and> trim (newMessage (step (Input textBlank) selectedA)) = []
   \<and> step SendMessage (step (Input textBlank) selectedA) = step (Input textBlank) selectedA"
proof -
  let ?b = "selectedA\<lparr>newMessage := textBlank\<rparr>"
  have bt: "trim (newMessage ?b) = []" by (simp add: trim_blank)
  then have "step SendMessage ?b = ?b"
    using sendMessage_guard[of ?b] by blast
  then have blank: "trim (newMessage (step (Input textBlank) selectedA)) = []"
    "step SendMessage (step (Input textBlank) selectedA) = step (Input textBlank) selectedA"
    using bt by simp_all
  let ?t = "selectedA\<lparr>newMessage := textHi\<rparr>"
  have t: "step (Input textHi) selectedA = ?t" by simp
  have a: "selectedAgent ?t = Some 0" "trim (newMessage ?t) \<noteq> []" "trim (newMessage ?t) = textHi"
      "pending ?t = []" "nextReq ?t = 1" "heap ?t ! 0 = agentA" "status agentA = IDLE"
      "agent_id agentA = ''a1''"
    by (simp_all add: selectedA_eq trim_hi textHi_ne init_def agentA_def)
  have "\<not> canSendMessage ?t"
    using sendMessage_guard[of ?t] a by simp
  moreover have "step SendMessage ?t \<noteq> ?t"
    using sendMessage_guard[of ?t] a(1,2) by simp
  moreover have "pending (step SendMessage ?t) = [(1, ChatReq ''a1'' textHi)]"
    using sendMessage_guard[of ?t] a by simp
  ultimately show ?thesis
    unfolding t using a(1,2) blank by simp
qed

text \<open>
  C4 as stated asks that \<open>sendMessage\<close> on an idle agent issue no chat call. With
  \<open>a1\<close> selected and idle, so that \<open>canSendMessage\<close> is false, \<open>sendMessage\<close> with
  the text \<open>hi\<close> sends the chat request and shows the message.
\<close>

theorem sendMessage_guard_counterexample:
  "status (heap (run [SelectAgent ''a1'', AgentResult 0 (Inr agentA), Input textHi] init) ! 0) = IDLE
   \<and> selectedAgent (run [SelectAgent ''a1'', AgentResult 0 (Inr agentA), Input textHi] init) = Some 0
   \<and> \<not> canSendMessage (run [SelectAgent ''a1'', AgentResult 0 (Inr agentA), Input textHi] init)
   \<and> pending (run [SelectAgent ''a1'', AgentResult 0 (Inr agentA), Input textHi, SendMessage] init)
       = [(1, ChatReq ''a1'' textHi)]
   \<and> messages (run [SelectAgent ''a1'', AgentResult 0 (Inr agentA), Input textHi, SendMessage] init)
       = [\<lparr>role = RoleUser, content = textHi, timestamp = DateAt 0\<rparr>]"
proof -
  let ?t = "selectedA\<lparr>newMessage := textHi\<rparr>"
  have a: "selectedAgent ?t = Some 0" "trim (newMessage ?t) \<noteq> []"
    by (simp_all add: selectedA_eq trim_hi textHi_ne)
  have v: "trim (newMessage ?t) = textHi" "pending ?t = []" "nextReq ?t = 1" "heap ?t ! 0 = agentA"
      "agent_id agentA = ''a1''" "messages ?t = []" "clock ?t = 0" "status agentA = IDLE"
    by (simp_all add: selectedA_eq trim_hi textHi_ne init_def agentA_def)
  have r1: "run [Input textHi] selectedA = ?t" by simp
  have r2: "run [Input textHi, SendMessage] selectedA = sendMessage ?t" by simp
  show ?thesis
    unfolding selectedA_run r1 r2 sendMessage_sends(1,3)[OF a] v
    using a(1) v(4,8) by (simp add: canSendMessage_def)
qed

section \<open>The transcript\<close>

lemma pollResult_messages: "messages (pollResult rid res s) = messages s"
  by (simp add: pollResult_def poll_next_def poll_error_def settle_def
      split: option.splits sum.splits)

lemma sentHi:
  "run [Input textHi, SendMessage] selectedA =
     selectedA\<lparr>messages := [\<lparr>role = RoleUser, content = textHi, timestamp = DateAt 0\<rparr>],
       isLoading := True,
       heap := [withHistory [\<lparr>entry_role = RoleUser, entry_content = textHi,
                              entry_timestamp = ISOString 0, entry_name = None\<rparr>] agentA],
       pending := [(1, ChatReq ''a1'' textHi)], nextReq := 2\<rparr>"
  by (simp add: sendMessage_def trim_hi textHi_ne selectedA_eq init_def Let_def http_def agentA_def
      pushHistory_def historyOf_def withHistory_def)

lemma reselect:
  "run [Input textHi, SendMessage, SelectAgent ''a1'', AgentResult 2 (Inr agent)] selectedA =
     selectAgent_next agent (run [Input textHi, SendMessage] selectedA)\<lparr>nextReq := 3\<rparr>"
proof -
  have "run [Input textHi, SendMessage, SelectAgent ''a1'', AgentResult 2 (Inr agent)] selectedA
      = agentResult 2 (Inr agent) (selectAgent ''a1'' (run [Input textHi, SendMessage] selectedA))"
    by simp
  also have "\<dots> = selectAgent_next agent (run [Input textHi, SendMessage] selectedA)\<lparr>nextReq := 3\<rparr>"
    unfolding sentHi
    by (simp add: agentResult_def selectAgent_def http_def settle_def selectAgent_next_def
        startStatusPolling_def stopStatusPolling_def unsubscribe_def Let_def selectedA_eq)
  finally show ?thesis .
qed

text \<open>
  C6, as the code has it. A successful \<open>selectAgent\<close> fetch replaces the displayed
  transcript by the snapshot's chat history (by the empty transcript when there is none),
  so a message of a given role and content is displayed exactly as often as the
  authoritative history holds it: an optimistic message that the history already
  contains once is shown once. Nothing of the local transcript is kept. A poll result
  leaves the displayed transcript as it is.
\<close>

theorem transcript_replaced_on_select:
  "(map_of (pending s) rid = Some (SelectReq i) \<longrightarrow>
      messages (step (AgentResult rid (Inr agent)) s)
        = (case historyOf agent of Some h \<Rightarrow> map toMessage h | None \<Rightarrow> [])
      \<and> (\<forall>h ro c. historyOf agent = Some h \<longrightarrow>
            length (filter (\<lambda>m. role m = ro \<and> content m = c)
                      (messages (step (AgentResult rid (Inr agent)) s)))
              = length (filter (\<lambda>e. entry_role e = ro \<and> entry_content e = c) h)))
   \<and> (map_of (pending s) rid = Some (PollReq i) \<longrightarrow>
        messages (step (AgentResult rid res) s) = messages s)"
  by (simp add: agentResult_select agentResult_poll selectAgent_next_fields
      pollResult_messages comp_def toMessage_def)

theorem transcript_replaced_on_select_witness:
  "map_of (pending (run [Input textHi, SendMessage, SelectAgent ''a1''] selectedA)) 2
     = Some (SelectReq ''a1'')
   \<and> messages (run [Input textHi, SendMessage] selectedA)
     = [\<lparr>role = RoleUser, content = textHi, timestamp = DateAt 0\<rparr>]
   \<and> messages (step (AgentResult 2 (Inr (withHistory [entryOld, entryHi] agentA)))
                 (run [Input textHi, SendMessage, SelectAgent ''a1''] selectedA))
     = [\<lparr>role = RoleAssistant, content = textWelcome, timestamp = DateParse ''2024-01-01T00:00:00Z''\<rparr>,
        \<lparr>role = RoleUser, content = textHi, timestamp = DateParse ''2024-01-01T00:00:05Z''\<rparr>]
   \<and> map_of (pending (advance 5000 selectedA)) 1 = Some (PollReq ''a1'')
   \<and> messages (step (AgentResult 1 (Inr (withHistory [entryOld] agentA))) (advance 5000 selectedA))
     = []"
proof -
  let ?s = "run [Input textHi, SendMessage, SelectAgent ''a1''] selectedA"
  have q: "map_of (pending (advance 5000 selectedA)) 1 = Some (PollReq ''a1'')"
    by (simp add: selectedA_5000)
  have "messages (step (AgentResult 1 (Inr (withHistory [entryOld] agentA))) (advance 5000 selectedA))
      = messages (advance 5000 selectedA)"
    using transcript_replaced_on_select[of "advance 5000 selectedA" 1 "''a1''" _
        "Inr (withHistory [entryOld] agentA)"] q
    by blast
  then have m: "messages (step (AgentResult 1 (Inr (withHistory [entryOld] agentA)))
                  (advance 5000 selectedA)) = []"
    by (simp add: selectedA_5000) (simp add: selectedA_eq init_def)
  have s: "?s = selectAgent ''a1'' (run [Input textHi, SendMessage] selectedA)" by simp
  have p: "map_of (pending ?s) 2 = Some (SelectReq ''a1'')"
    unfolding s sentHi by (simp add: selectAgent_def http_def)
  have h: "historyOf (withHistory [entryOld, entryHi] agentA) = Some [entryOld, entryHi]"
    by (simp add: withHistory_def historyOf_def)
  have "messages (step (AgentResult 2 (Inr (withHistory [entryOld, entryHi] agentA))) ?s)
      = map toMessage [entryOld, entryHi]"
    using transcript_replaced_on_select[of ?s 2 "''a1''" "withHistory [entryOld, entryHi] agentA"] p h
    by simp
  moreover have "messages (run [Input textHi, SendMessage] selectedA)
     = [\<lparr>role = RoleUser, content = textHi, timestamp = DateAt 0\<rparr>]"
    unfolding sentHi by simp
  ultimately show ?thesis
    using p q m by (simp add: toMessage_def entryOld_def entryHi_def)
qed

text \<open>
  C6 as stated asks that unconfirmed local messages be kept after the authoritative
  ones. The user sends \<open>hi\<close>; while that chat request is still in flight the agent is
  selected again and the fetch returns a history without \<open>hi\<close>. The displayed
  transcript is then that history alone: the unconfirmed \<open>hi\<close> is gone.
\<close>

theorem reconciliation_counterexample:
  "messages (run [SelectAgent ''a1'', AgentResult 0 (Inr agentA), Input textHi, SendMessage] init)
     = [\<lparr>role = RoleUser, content = textHi, timestamp = DateAt 0\<rparr>]
   \<and> pending (run [SelectAgent ''a1'', AgentResult 0 (Inr agentA), Input textHi, SendMessage] init)
     = [(1, ChatReq ''a1'' textHi)]
   \<and> messages (run [SelectAgent ''a1'', AgentResult 0 (Inr agentA), Input textHi, SendMessage,
                     SelectAgent ''a1'', AgentResult 2 (Inr (withHistory [entryOld] agentA))] init)
     = [\<lparr>role = RoleAssistant, content = textWelcome, timestamp = DateParse ''2024-01-01T00:00:00Z''\<rparr>]
   \<and> pending (run [SelectAgent ''a1'', AgentResult 0 (Inr agentA), Input textHi, SendMessage,
                     SelectAgent ''a1'', AgentResult 2 (Inr (withHistory [entryOld] agentA))] init)
     = [(1, ChatReq ''a1'' textHi)]"
  unfolding selectedA_run reselect
  unfolding sentHi
  by (simp add: selectAgent_next_def startStatusPolling_def stopStatusPolling_def unsubscribe_def
      Let_def selectedA_eq historyOf_def withHistory_def toMessage_def entryOld_def init_def)

section \<open>The object store\<close>

lemma heap_stopStatusPolling: "heap (stopStatusPolling s) = heap s"
  by (simp add: stopStatusPolling_def unsubscribe_def settle_def Let_def split: option.splits)

lemma heap_intervalFire: "heap (intervalFire s) = heap s"
  by (simp add: intervalFire_def http_def settle_def Let_def split: option.splits)

lemma heap_tick1: "heap (tick1 s) = heap s"
  by (simp add: tick1_def Let_def heap_intervalFire)

lemma heap_advance: "heap (advance d s) = heap s"
  by (induction d arbitrary: s) (simp_all add: heap_tick1)

lemma selected_advance: "selectedAgent (advance d s) = selectedAgent s"
proof (induction d arbitrary: s)
  case 0
  show ?case by simp
next
  case (Suc d)
  have "selectedAgent (tick1 s) = selectedAgent s"
    by (simp add: tick1_def intervalFire_def http_def settle_def Let_def split: option.splits)
  with Suc show ?case by simp
qed

lemma heap_agentResult:
  "heap (agentResult rid res s) = heap s \<or> (\<exists>a. heap (agentResult rid res s) = heap s @ [a])"
  by (auto simp: agentResult_def pollResult_def poll_next_def poll_error_def settle_def
      selectAgent_next_def selectAgent_error_def startStatusPolling_def
      stopStatusPolling_def unsubscribe_def Let_def
      startAgent_next_def startAgent_error_def stopAgent_next_def stopAgent_error_def
      split: option.splits sum.splits Request.splits)

lemma heap_agentsResult:
  "\<exists>as. heap (agentsResult rid res s) = heap s @ as"
  by (auto simp: agentsResult_def loadAgents_next_def loadAgents_error_def settle_def
      split: option.splits sum.splits Request.splits)

lemma heap_grows:
  assumes "\<not> chatEvent e"
  shows "\<exists>as. heap (step e s) = heap s @ as"
proof (cases e)
  case (AgentResult rid res)
  then show ?thesis using heap_agentResult[of rid res s] by auto
next
  case (AgentsResult rid res)
  then show ?thesis using heap_agentsResult[of rid res s] by simp
next
  case (Elapse d)
  then show ?thesis by (simp add: heap_advance)
qed (use assms in \<open>auto simp: ngOnInit_def loadAgents_def selectAgent_def http_def ngOnDestroy_def
      heap_stopStatusPolling selectionChange_def startAgent_def stopAgent_def Let_def
      split: option.splits\<close>)

lemma pushHistory_context: "(pushHistory e a)\<lparr>agent_context := c\<rparr> = a\<lparr>agent_context := c\<rparr>"
  by (simp add: pushHistory_def split: option.splits)

lemma nth_update_context:
  assumes "r < length xs" and "b\<lparr>agent_context := agent_context (xs ! a)\<rparr> = xs ! a"
  shows "(xs[a := b] ! r)\<lparr>agent_context := agent_context (xs ! r)\<rparr> = xs ! r"
  using assms by (cases "a = r") simp_all

lemma sendMessage_heap:
  "selectedAgent (sendMessage s) = selectedAgent s
   \<and> length (heap (sendMessage s)) = length (heap s)
   \<and> (selectedAgent s \<noteq> Some r \<longrightarrow> heap (sendMessage s) ! r = heap s ! r)
   \<and> (r < length (heap s) \<longrightarrow>
        (heap (sendMessage s) ! r)\<lparr>agent_context := agent_context (heap s ! r)\<rparr> = heap s ! r)"
  by (cases "selectedAgent s")
     (auto simp: sendMessage_def Let_def http_def pushHistory_context
       intro!: nth_update_context split: option.splits)

lemma sendMessage_next_heap:
  "selectedAgent (sendMessage_next c s) = selectedAgent s
   \<and> length (heap (sendMessage_next c s)) = length (heap s)
   \<and> (selectedAgent s \<noteq> Some r \<longrightarrow> heap (sendMessage_next c s) ! r = heap s ! r)
   \<and> (r < length (heap s) \<longrightarrow>
        (heap (sendMessage_next c s) ! r)\<lparr>agent_context := agent_context (heap s ! r)\<rparr> = heap s ! r)"
  by (cases "selectedAgent s")
     (auto simp: sendMessage_next_def Let_def pushHistory_context
       intro!: nth_update_context split: option.splits)

lemma chatResult_heap:
  "selectedAgent (chatResult rid res s) = selectedAgent s
   \<and> length (heap (chatResult rid res s)) = length (heap s)
   \<and> (selectedAgent s \<noteq> Some r \<longrightarrow> heap (chatResult rid res s) ! r = heap s ! r)
   \<and> (r < length (heap s) \<longrightarrow>
        (heap (chatResult rid res s) ! r)\<lparr>agent_context := agent_context (heap s ! r)\<rparr> = heap s ! r)"
proof -
  have "chatResult rid res s = s \<or> (\<exists>c. chatResult rid res s = sendMessage_next c (settle rid s))
        \<or> chatResult rid res s = sendMessage_error (settle rid s)"
    by (auto simp: chatResult_def split: option.splits sum.splits Request.splits)
  moreover have "selectedAgent (settle rid s) = selectedAgent s" "heap (settle rid s) = heap s"
    by (simp_all add: settle_def)
  ultimately show ?thesis
    using sendMessage_next_heap[of _ "settle rid s" r]
    by (auto simp: sendMessage_error_def)
qed

lemma selected_agentResult:
  "selectedAgent (agentResult rid res s) = selectedAgent s
   \<or> selectedAgent (agentResult rid res s) = Some (length (heap s))"
  by (auto simp: agentResult_def pollResult_def poll_next_def poll_error_def settle_def
      selectAgent_next_def selectAgent_error_def startStatusPolling_def
      stopStatusPolling_def unsubscribe_def Let_def
      startAgent_next_def startAgent_error_def stopAgent_next_def stopAgent_error_def
      split: option.splits sum.splits Request.splits)

lemma selected_agentsResult: "selectedAgent (agentsResult rid res s) = selectedAgent s"
  by (auto simp: agentsResult_def loadAgents_next_def loadAgents_error_def settle_def
      split: option.splits sum.splits Request.splits)

lemma selected_stopStatusPolling: "selectedAgent (stopStatusPolling s) = selectedAgent s"
  by (simp add: stopStatusPolling_def unsubscribe_def settle_def Let_def split: option.splits)

lemma selected_replaced:
  assumes "\<not> chatEvent e"
  shows "selectedAgent (step e s) = selectedAgent s
       \<or> selectedAgent (step e s) = Some (length (heap s))
       \<or> (\<exists>r'. e = SelectionChange r' \<and> r' \<in> set (agents s)
                \<and> selectedAgent (step e s) = Some r')"
proof (cases e)
  case (AgentResult rid res)
  then show ?thesis using selected_agentResult[of rid res s] by auto
next
  case (AgentsResult rid res)
  then show ?thesis by (simp add: selected_agentsResult)
next
  case (Elapse d)
  then show ?thesis by (simp add: selected_advance)
qed (use assms in \<open>auto simp: ngOnInit_def loadAgents_def selectAgent_def http_def ngOnDestroy_def
      selected_stopStatusPolling selectionChange_def startAgent_def stopAgent_def Let_def
      split: option.splits\<close>)

lemma result_replaces:
  assumes "map_of (pending s) rid = Some (SelectReq i)
           \<or> map_of (pending s) rid = Some (StartReq i)
           \<or> map_of (pending s) rid = Some (StopReq i)"
  shows "heap (agentResult rid (Inr agent) s) = heap s @ [agent]
       \<and> selectedAgent (agentResult rid (Inr agent) s) = Some (length (heap s))"
  using assms
  by (auto simp: agentResult_def settle_def selectAgent_next_def startStatusPolling_fields
      startAgent_next_def stopAgent_next_def Let_def)

lemma poll_replaces:
  assumes "statusSubscription s = Some sub" and "inner sub = Some rid" and "\<not> sub_closed sub"
    and "map_of (pending s) rid = Some (PollReq i)" and "selectedAgent s \<noteq> None"
  shows "heap (agentResult rid (Inr agent) s) = heap s @ [agent]
       \<and> selectedAgent (agentResult rid (Inr agent) s) = Some (length (heap s))"
  using assms
  by (auto simp: agentResult_def pollResult_def poll_next_def settle_def)

lemma sendMessage_writes:
  assumes "selectedAgent s = Some r" and "trim (newMessage s) \<noteq> []"
  shows "heap (sendMessage s) =
           (heap s)[r := (heap s ! r)\<lparr>agent_context := Some \<lparr>chat_history = Some
              ((case historyOf (heap s ! r) of None \<Rightarrow> [] | Some h \<Rightarrow> h)
               @ [\<lparr>entry_role = RoleUser, entry_content = trim (newMessage s),
                    entry_timestamp = ISOString (clock s), entry_name = None\<rparr>])\<rparr>\<rparr>]"
  using assms
  by (auto simp: sendMessage_def Let_def http_def pushHistory_def historyOf_def
      split: option.splits)

lemma reply_writes:
  assumes "selectedAgent s = Some r" and "map_of (pending s) rid = Some (ChatReq i m)"
  shows "historyOf (heap s ! r) = Some h \<Longrightarrow>
           heap (chatResult rid (Inr response) s) =
             (heap s)[r := (heap s ! r)\<lparr>agent_context := Some \<lparr>chat_history = Some
                (h @ [\<lparr>entry_role = RoleAssistant, entry_content = response_content response,
                       entry_timestamp = ISOString (clock s), entry_name = None\<rparr>])\<rparr>\<rparr>]"
    and "historyOf (heap s ! r) = None \<Longrightarrow> heap (chatResult rid (Inr response) s) = heap s"
  using assms
  by (auto simp: chatResult_def sendMessage_next_def settle_def Let_def pushHistory_def)

text \<open>
  C8, as the code has it. A snapshot received for a selection, a poll or a lifecycle
  command is a new object that becomes the selected one. Every event other than a chat event
  leaves each existing \<open>Agent\<close> object as it is, and \<open>selectedAgent\<close> either stays,
  or refers to the new object, or (the drop-down binding) to an element of \<open>agents\<close>.
  The chat events keep the reference and write into the object held: \<open>sendMessage\<close>
  gives it a chat history if it has none and appends the user's message, and the answer to
  the chat request appends the assistant's reply to the chat history of the object then
  selected, if it has one. They change the \<open>context\<close> field of that object and nothing
  else in the store.
\<close>

theorem snapshots_replaced_not_mutated:
  assumes "r < length (heap s)"
  shows "(\<not> chatEvent e \<longrightarrow>
            heap (step e s) ! r = heap s ! r
          \<and> (selectedAgent (step e s) = selectedAgent s
             \<or> selectedAgent (step e s) = Some (length (heap s))
             \<or> (\<exists>r'. e = SelectionChange r' \<and> r' \<in> set (agents s)
                      \<and> selectedAgent (step e s) = Some r')))
       \<and> (chatEvent e \<longrightarrow>
            selectedAgent (step e s) = selectedAgent s
          \<and> length (heap (step e s)) = length (heap s)
          \<and> (selectedAgent s \<noteq> Some r \<longrightarrow> heap (step e s) ! r = heap s ! r)
          \<and> (heap (step e s) ! r)\<lparr>agent_context := agent_context (heap s ! r)\<rparr> = heap s ! r)
       \<and> (map_of (pending s) rid = Some (SelectReq i)
          \<or> map_of (pending s) rid = Some (StartReq i)
          \<or> map_of (pending s) rid = Some (StopReq i) \<longrightarrow>
            heap (step (AgentResult rid (Inr agent)) s) = heap s @ [agent]
          \<and> selectedAgent (step (AgentResult rid (Inr agent)) s) = Some (length (heap s)))
       \<and> (statusSubscription s = Some sub \<and> inner sub = Some rid \<and> \<not> sub_closed sub
          \<and> map_of (pending s) rid = Some (PollReq i) \<and> selectedAgent s \<noteq> None \<longrightarrow>
            heap (step (AgentResult rid (Inr agent)) s) = heap s @ [agent]
          \<and> selectedAgent (step (AgentResult rid (Inr agent)) s) = Some (length (heap s)))
       \<and> (selectedAgent s = Some r \<and> trim (newMessage s) \<noteq> [] \<longrightarrow>
            heap (step SendMessage s) =
              (heap s)[r := (heap s ! r)\<lparr>agent_context := Some \<lparr>chat_history = Some
                 ((case historyOf (heap s ! r) of None \<Rightarrow> [] | Some h \<Rightarrow> h)
                  @ [\<lparr>entry_role = RoleUser, entry_content = trim (newMessage s),
                       entry_timestamp = ISOString (clock s), entry_name = None\<rparr>])\<rparr>\<rparr>])
       \<and> (selectedAgent s = Some r \<and> map_of (pending s) rid = Some (ChatReq i m) \<longrightarrow>
            (\<forall>h. historyOf (heap s ! r) = Some h \<longrightarrow>
               heap (step (ChatResult rid (Inr response)) s) =
                 (heap s)[r := (heap s ! r)\<lparr>agent_context := Some \<lparr>chat_history = Some
                    (h @ [\<lparr>entry_role = RoleAssistant,
                           entry_content = response_content response,
                           entry_timestamp = ISOString (clock s), entry_name = None\<rparr>])\<rparr>\<rparr>])
          \<and> (historyOf (heap s ! r) = None \<longrightarrow>
               heap (step (ChatResult rid (Inr response)) s) = heap s))"
proof -
  have bound: "(\<not> chatEvent e \<longrightarrow>
            heap (step e s) ! r = heap s ! r
          \<and> (selectedAgent (step e s) = selectedAgent s
             \<or> selectedAgent (step e s) = Some (length (heap s))
             \<or> (\<exists>r'. e = SelectionChange r' \<and> r' \<in> set (agents s)
                      \<and> selectedAgent (step e s) = Some r')))
       \<and> (chatEvent e \<longrightarrow>
            selectedAgent (step e s) = selectedAgent s
          \<and> length (heap (step e s)) = length (heap s)
          \<and> (selectedAgent s \<noteq> Some r \<longrightarrow> heap (step e s) ! r = heap s ! r)
          \<and> (heap (step e s) ! r)\<lparr>agent_context := agent_context (heap s ! r)\<rparr> = heap s ! r)"
  proof (cases "chatEvent e")
    case False
    then obtain as where "heap (step e s) = heap s @ as"
      using heap_grows by blast
    with False assms selected_replaced[OF False, of s] show ?thesis
      by (simp add: nth_append)
  next
    case True
    then consider "e = SendMessage" | rid res where "e = ChatResult rid res"
      by (cases e) auto
    then show ?thesis
    proof cases
      case 1
      with True assms sendMessage_heap[of s r] show ?thesis by simp
    next
      case 2
      with True assms chatResult_heap[of rid res s r] show ?thesis by simp
    qed
  qed
  have repl: "map_of (pending s) rid = Some (SelectReq i)
          \<or> map_of (pending s) rid = Some (StartReq i)
          \<or> map_of (pending s) rid = Some (StopReq i) \<longrightarrow>
            heap (step (AgentResult rid (Inr agent)) s) = heap s @ [agent]
          \<and> selectedAgent (step (AgentResult rid (Inr agent)) s) = Some (length (heap s))"
    using result_replaces[of s rid i agent] by simp
  have poll: "statusSubscription s = Some sub \<and> inner sub = Some rid \<and> \<not> sub_closed sub
          \<and> map_of (pending s) rid = Some (PollReq i) \<and> selectedAgent s \<noteq> None \<longrightarrow>
            heap (step (AgentResult rid (Inr agent)) s) = heap s @ [agent]
          \<and> selectedAgent (step (AgentResult rid (Inr agent)) s) = Some (length (heap s))"
    using poll_replaces[of s sub rid i agent] by simp
  have send: "selectedAgent s = Some r \<and> trim (newMessage s) \<noteq> [] \<longrightarrow>
            heap (step SendMessage s) =
              (heap s)[r := (heap s ! r)\<lparr>agent_context := Some \<lparr>chat_history = Some
                 ((case historyOf (heap s ! r) of None \<Rightarrow> [] | Some h \<Rightarrow> h)
                  @ [\<lparr>entry_role = RoleUser, entry_content = trim (newMessage s),
                       entry_timestamp = ISOString (clock s), entry_name = None\<rparr>])\<rparr>\<rparr>]"
    using sendMessage_writes[of s r] by simp
  have reply: "selectedAgent s = Some r \<and> map_of (pending s) rid = Some (ChatReq i m) \<longrightarrow>
            (\<forall>h. historyOf (heap s ! r) = Some h \<longrightarrow>
               heap (step (ChatResult rid (Inr response)) s) =
                 (heap s)[r := (heap s ! r)\<lparr>agent_context := Some \<lparr>chat_history = Some
                    (h @ [\<lparr>entry_role = RoleAssistant,
                           entry_content = response_content response,
                           entry_timestamp = ISOString (clock s), entry_name = None\<rparr>])\<rparr>\<rparr>])
          \<and> (historyOf (heap s ! r) = None \<longrightarrow>
               heap (step (ChatResult rid (Inr response)) s) = heap s)"
    using reply_writes[of s r rid i m] by simp
  from bound repl poll send reply show ?thesis by blast
qed

text \<open>
  With \<open>a1\<close> selected and idle: a \<open>startAgent\<close> call leaves the object held as it is
  and its answer becomes a new object, the one selected; \<open>sendMessage\<close> with the text
  \<open>hi\<close> writes the user's message into the object held, and the answer to the chat
  request writes the reply after it.
\<close>

lemma sentHi_state:
  "step SendMessage (run [Input textHi] selectedA) =
     selectedA\<lparr>messages := [\<lparr>role = RoleUser, content = textHi, timestamp = DateAt 0\<rparr>],
       isLoading := True,
       heap := [withHistory [\<lparr>entry_role = RoleUser, entry_content = textHi,
                              entry_timestamp = ISOString 0, entry_name = None\<rparr>] agentA],
       pending := [(1, ChatReq ''a1'' textHi)], nextReq := 2\<rparr>"
  using sentHi by simp

theorem snapshots_replaced_not_mutated_witness:
  "0 < length (heap (run [Input textHi] selectedA))
   \<and> \<not> chatEvent StartAgent \<and> chatEvent SendMessage
   \<and> heap (step StartAgent (run [Input textHi] selectedA)) ! 0 = agentA
   \<and> map_of (pending (step StartAgent selectedA)) 1 = Some (StartReq ''a1'')
   \<and> heap (step (AgentResult 1 (Inr agentB)) (step StartAgent selectedA)) = [agentA, agentB]
   \<and> selectedAgent (step (AgentResult 1 (Inr agentB)) (step StartAgent selectedA)) = Some 1
   \<and> selectedAgent (step SendMessage (run [Input textHi] selectedA)) = Some 0
   \<and> (heap (step SendMessage (run [Input textHi] selectedA)) ! 0)\<lparr>agent_context := None\<rparr> = agentA
   \<and> heap (step SendMessage (run [Input textHi] selectedA)) =
       [agentA\<lparr>agent_context := Some \<lparr>chat_history = Some
          [\<lparr>entry_role = RoleUser, entry_content = textHi,
            entry_timestamp = ISOString 0, entry_name = None\<rparr>]\<rparr>\<rparr>]
   \<and> heap (step (ChatResult 1 (Inr (ChatResponse textWelcome)))
               (step SendMessage (run [Input textHi] selectedA))) =
       [agentA\<lparr>agent_context := Some \<lparr>chat_history = Some
          [\<lparr>entry_role = RoleUser, entry_content = textHi,
            entry_timestamp = ISOString 0, entry_name = None\<rparr>,
           \<lparr>entry_role = RoleAssistant, entry_content = textWelcome,
            entry_timestamp = ISOString 0, entry_name = None\<rparr>]\<rparr>\<rparr>]"
proof -
  let ?t = "run [Input textHi] selectedA"
  have t: "?t = selectedA\<lparr>newMessage := textHi\<rparr>" by simp
  have l: "0 < length (heap ?t)" unfolding t by (simp add: selectedA_eq)
  have v: "heap ?t ! 0 = agentA" "selectedAgent ?t = Some 0" "agent_context agentA = None"
      "heap ?t = [agentA]" "trim (newMessage ?t) = textHi" "clock ?t = 0"
      "historyOf agentA = None"
    unfolding t by (simp_all add: selectedA_eq agentA_def trim_hi init_def historyOf_def)
  have ne: "trim (newMessage ?t) \<noteq> []"
    unfolding t by (simp add: trim_hi textHi_ne)
  note T = snapshots_replaced_not_mutated[OF l]
  have "heap (step StartAgent ?t) ! 0 = heap ?t ! 0"
    using T[of StartAgent] by simp
  then have w1: "heap (step StartAgent ?t) ! 0 = agentA"
    using v(1) by simp
  have "selectedAgent (step SendMessage ?t) = selectedAgent ?t"
    and "(heap (step SendMessage ?t) ! 0)\<lparr>agent_context := agent_context (heap ?t ! 0)\<rparr> = heap ?t ! 0"
    using T[of SendMessage] by simp_all
  then have w2: "selectedAgent (step SendMessage ?t) = Some 0"
    "(heap (step SendMessage ?t) ! 0)\<lparr>agent_context := None\<rparr> = agentA"
    using v(1,2,3) by simp_all
  have "heap (step SendMessage ?t) =
              (heap ?t)[0 := (heap ?t ! 0)\<lparr>agent_context := Some \<lparr>chat_history = Some
                 ((case historyOf (heap ?t ! 0) of None \<Rightarrow> [] | Some h \<Rightarrow> h)
                  @ [\<lparr>entry_role = RoleUser, entry_content = trim (newMessage ?t),
                       entry_timestamp = ISOString (clock ?t), entry_name = None\<rparr>])\<rparr>\<rparr>]"
    using T[where e = SendMessage] v(2) ne by blast
  then have w3: "heap (step SendMessage ?t) =
       [agentA\<lparr>agent_context := Some \<lparr>chat_history = Some
          [\<lparr>entry_role = RoleUser, entry_content = textHi,
            entry_timestamp = ISOString 0, entry_name = None\<rparr>]\<rparr>\<rparr>]"
    by (simp only: v) (simp add: v(7))
  let ?u = "step StartAgent selectedA"
  have u: "?u = selectedA\<lparr>pending := [(1, StartReq ''a1'')], nextReq := 2\<rparr>"
    by (simp add: startAgent_def http_def selectedA_eq init_def agentA_def)
  have pu: "map_of (pending ?u) 1 = Some (StartReq ''a1'')" "heap ?u = [agentA]"
    unfolding u by (simp_all add: selectedA_eq)
  have lu: "0 < length (heap ?u)" by (simp only: pu) simp
  have "heap (step (AgentResult 1 (Inr agentB)) ?u) = heap ?u @ [agentB]
        \<and> selectedAgent (step (AgentResult 1 (Inr agentB)) ?u) = Some (length (heap ?u))"
    using snapshots_replaced_not_mutated[OF lu, where rid = 1 and i = "''a1''" and agent = agentB]
      pu(1) by blast
  then have w4: "heap (step (AgentResult 1 (Inr agentB)) ?u) = [agentA, agentB]"
    "selectedAgent (step (AgentResult 1 (Inr agentB)) ?u) = Some 1"
    by (simp_all only: pu) simp_all
  let ?x = "step SendMessage ?t"
  let ?e = "\<lparr>entry_role = RoleUser, entry_content = textHi,
              entry_timestamp = ISOString 0, entry_name = None\<rparr>"
  have x: "selectedAgent ?x = Some 0" "map_of (pending ?x) 1 = Some (ChatReq ''a1'' textHi)"
      "historyOf (heap ?x ! 0) = Some [?e]" "clock ?x = 0"
      "heap ?x = [agentA\<lparr>agent_context := Some \<lparr>chat_history = Some [?e]\<rparr>\<rparr>]"
    unfolding sentHi_state
    by (simp_all add: selectedA_eq withHistory_def historyOf_def init_def)
  have lx: "0 < length (heap ?x)" by (simp only: x(5)) simp
  have "heap (step (ChatResult 1 (Inr (ChatResponse textWelcome))) ?x) =
          (heap ?x)[0 := (heap ?x ! 0)\<lparr>agent_context := Some \<lparr>chat_history = Some
             ([?e] @ [\<lparr>entry_role = RoleAssistant,
                      entry_content = response_content (ChatResponse textWelcome),
                      entry_timestamp = ISOString (clock ?x), entry_name = None\<rparr>])\<rparr>\<rparr>]"
    using snapshots_replaced_not_mutated[OF lx, where rid = 1 and i = "''a1''" and m = textHi
        and response = "ChatResponse textWelcome"] x(1,2,3)
    by blast
  then have w5: "heap (step (ChatResult 1 (Inr (ChatResponse textWelcome))) ?x) =
       [agentA\<lparr>agent_context := Some \<lparr>chat_history = Some
          [?e, \<lparr>entry_role = RoleAssistant, entry_content = textWelcome,
                entry_timestamp = ISOString 0, entry_name = None\<rparr>]\<rparr>\<rparr>]"
    by (simp only: x) simp
  show ?thesis
    using l w1 pu(1) w4 w2 w3 w5 by simp
qed

text \<open>
  C8 as stated asks that no operation change a field of the snapshot held. After
  \<open>selectAgent("a1")\<close> the component holds the object at reference 0 with no context;
  \<open>sendMessage\<close> leaves the reference at 0 and gives that object a context with the
  user's message in its chat history.
\<close>

theorem snapshot_immutability_counterexample:
  "selectedAgent (run [SelectAgent ''a1'', AgentResult 0 (Inr agentA)] init) = Some 0
   \<and> heap (run [SelectAgent ''a1'', AgentResult 0 (Inr agentA)] init) ! 0 = agentA
   \<and> agent_context agentA = None
   \<and> selectedAgent (run [SelectAgent ''a1'', AgentResult 0 (Inr agentA),
                           Input textHi, SendMessage] init) = Some 0
   \<and> agent_context (heap (run [SelectAgent ''a1'', AgentResult 0 (Inr agentA),
                                  Input textHi, SendMessage] init) ! 0)
       = Some \<lparr>chat_history = Some [\<lparr>entry_role = RoleUser, entry_content = textHi,
                                        entry_timestamp = ISOString 0, entry_name = None\<rparr>]\<rparr>"
  unfolding selectedA_run sentHi
  by (simp add: selectedA_eq withHistory_def agentA_def)

section \<open>A poll in flight when the selection changes\<close>

lemma gone_http: "gone rid s \<Longrightarrow> gone rid (http q s)"
  by (auto simp: gone_def http_def)

lemma gone_stopStatusPolling: "gone rid s \<Longrightarrow> gone rid (stopStatusPolling s)"
  by (auto simp: gone_def stopStatusPolling_def unsubscribe_def settle_def Let_def
      split: option.splits)

lemma gone_intervalFire: "gone rid s \<Longrightarrow> gone rid (intervalFire s)"
  by (auto simp: gone_def intervalFire_def http_def settle_def Let_def split: option.splits)

lemma gone_tick1: "gone rid s \<Longrightarrow> gone rid (tick1 s)"
proof -
  assume g: "gone rid s"
  have "gone rid (s\<lparr>clock := Suc (clock s)\<rparr>)"
    using g by (simp add: gone_def)
  then show ?thesis
    by (simp add: tick1_def Let_def gone_intervalFire)
qed

lemma gone_advance: "gone rid s \<Longrightarrow> gone rid (advance d s)"
  by (induction d arbitrary: s) (simp_all add: gone_tick1)

lemma gone_agentResult: "gone rid s \<Longrightarrow> gone rid (agentResult k res s)"
  by (auto simp: gone_def agentResult_def pollResult_def poll_next_def poll_error_def settle_def
      selectAgent_next_def selectAgent_error_def startStatusPolling_def
      stopStatusPolling_def unsubscribe_def Let_def
      startAgent_next_def startAgent_error_def stopAgent_next_def stopAgent_error_def
      split: option.splits sum.splits Request.splits)

lemma gone_agentsResult: "gone rid s \<Longrightarrow> gone rid (agentsResult k res s)"
  by (auto simp: gone_def agentsResult_def loadAgents_next_def loadAgents_error_def settle_def
      split: option.splits sum.splits Request.splits)

lemma gone_chatResult: "gone rid s \<Longrightarrow> gone rid (chatResult k res s)"
  by (auto simp: gone_def chatResult_def sendMessage_next_def sendMessage_error_def settle_def
      Let_def split: option.splits sum.splits Request.splits)

lemma gone_sendMessage: "gone rid s \<Longrightarrow> gone rid (sendMessage s)"
  by (auto simp: gone_def sendMessage_def http_def Let_def split: option.splits)

lemma gone_step: "gone rid s \<Longrightarrow> gone rid (step e s)"
proof (cases e)
  case (Elapse d)
  assume "gone rid s"
  then show ?thesis using Elapse by (simp add: gone_advance)
next
  case (NgOnInit a)
  assume "gone rid s"
  then show ?thesis using NgOnInit
    by (auto simp: ngOnInit_def loadAgents_def selectAgent_def Let_def gone_http split: option.splits)
next
  case (SelectionChange r)
  assume g: "gone rid s"
  then have "gone rid (s\<lparr>selectedAgent := Some r\<rparr>)" by (simp add: gone_def)
  then show ?thesis using SelectionChange g
    by (simp add: selectionChange_def selectAgent_def gone_http)
next
  case (Input t)
  assume "gone rid s"
  then show ?thesis using Input by (simp add: gone_def)
qed (auto simp: ngOnDestroy_def gone_stopStatusPolling selectAgent_def gone_http
      startAgent_def stopAgent_def gone_sendMessage gone_agentsResult gone_agentResult
      gone_chatResult split: option.splits)

lemma gone_run: "gone rid s \<Longrightarrow> gone rid (run es s)"
  by (induction es arbitrary: s) (simp_all add: gone_step)

lemma gone_ignored: "gone rid s \<Longrightarrow> agentResult rid res s = s"
proof -
  assume "gone rid s"
  then have "map_of (pending s) rid = None"
    by (simp add: gone_def map_of_eq_None_iff)
  then show ?thesis by (simp add: agentResult_def)
qed

text \<open>
  When a \<open>selectAgent\<close> fetch succeeds while a poll is in flight,
  \<open>startStatusPolling\<close> unsubscribes the old subscription before it starts the new
  poller, which aborts the poll: the request is no longer in flight, and whatever happens
  afterwards an answer to it changes nothing.
\<close>

lemma selectAgent_success_aborts_poll:
  assumes "statusSubscription s = Some sub" and "inner sub = Some rid" and "\<not> sub_closed sub"
    and "rid < nextReq s" and "map_of (pending s) rs = Some (SelectReq i)"
  shows "gone rid (step (AgentResult rs (Inr agent)) s)"
    and "step (AgentResult rid res) (run es (step (AgentResult rs (Inr agent)) s))
           = run es (step (AgentResult rs (Inr agent)) s)"
proof -
  let ?s1 = "agentResult rs (Inr agent) s"
  have s1: "?s1 = selectAgent_next agent (settle rs s)"
    using assms(5) by (rule agentResult_select)
  have "pending ?s1 = filter (\<lambda>kv. fst kv \<noteq> rid) (filter (\<lambda>kv. fst kv \<noteq> rs) (pending s))"
    and "nextReq ?s1 = nextReq s"
    using assms(1,2,3)
    by (simp_all add: s1 selectAgent_next_def startStatusPolling_def stopStatusPolling_def
        unsubscribe_def settle_def Let_def)
  then have g: "gone rid ?s1"
    using assms(4) by (auto simp: gone_def)
  then show "gone rid (step (AgentResult rs (Inr agent)) s)"
    by simp
  have "gone rid (run es ?s1)"
    using g by (rule gone_run)
  then have "agentResult rid res (run es ?s1) = run es ?s1"
    by (rule gone_ignored)
  then show "step (AgentResult rid res) (run es (step (AgentResult rs (Inr agent)) s))
           = run es (step (AgentResult rs (Inr agent)) s)"
    by simp
qed

lemma boundA:
  "run [NgOnInit None, AgentsResult 0 (Inr [agentA, agentB]), SelectionChange 0,
        AgentResult 1 (Inr agentA)] init =
     init\<lparr>agents := [0, 1], heap := [agentA, agentB, agentA], selectedAgent := Some 2,
          nextReq := 2,
          statusSubscription := Some \<lparr>poll_agentId = ''a1'', timerDue = Some 5000,
                                        inner = None, sub_closed = False\<rparr>\<rparr>"
  by (simp add: ngOnInit_def loadAgents_def http_def init_def agentsResult_def settle_def
      loadAgents_next_def selectionChange_def selectAgent_def agentResult_def
      selectAgent_next_def startStatusPolling_def stopStatusPolling_def Let_def
      historyOf_def upt_rec agentA_def)

lemma boundA_5000:
  "advance 5000 (init\<lparr>agents := [0, 1], heap := [agentA, agentB, agentA], selectedAgent := Some 2,
          nextReq := 2,
          statusSubscription := Some \<lparr>poll_agentId = ''a1'', timerDue = Some 5000,
                                        inner = None, sub_closed = False\<rparr>\<rparr>) =
     init\<lparr>agents := [0, 1], heap := [agentA, agentB, agentA], selectedAgent := Some 2,
          clock := 5000, pending := [(2, PollReq ''a1'')], nextReq := 3,
          statusSubscription := Some \<lparr>poll_agentId = ''a1'', timerDue = Some 10000,
                                        inner = Some 2, sub_closed = False\<rparr>\<rparr>"
  (is "advance 5000 ?s = ?t")
proof -
  have "advance (5000 - clock ?s) ?s = intervalFire (?s\<lparr>clock := 5000\<rparr>)"
    by (rule advance_to_due[where sub = "\<lparr>poll_agentId = ''a1'', timerDue = Some 5000,
                                        inner = None, sub_closed = False\<rparr>"])
       (simp_all add: init_def)
  moreover have "clock ?s = 0" by (simp add: init_def)
  moreover have "intervalFire (?s\<lparr>clock := 5000\<rparr>) = ?t"
    by (simp add: intervalFire_def selectedId_def agentA_def http_def init_def)
  ultimately show ?thesis by simp
qed

text \<open>
  C2 fails in the code. The poller compares the selected id with its own when a tick
  fires, before the request is sent; the observer that receives the answer checks only
  that some agent is selected. The list of agents is loaded and \<open>a1\<close> is chosen in the
  drop-down; 5000 ms later its first poll is in flight. The user chooses \<open>b2\<close>: the
  binding stores \<open>b2\<close> in \<open>selectedAgent\<close> and \<open>selectAgent("b2")\<close> sends its
  fetch. The poll of \<open>a1\<close> is answered before that fetch: the answer is not suppressed,
  the stale snapshot of \<open>a1\<close> becomes the selected one and the component shows \<open>a1\<close>
  again, while the fetch of \<open>b2\<close> is still in flight.
\<close>

theorem stale_poll_applied_after_selection_change:
  "selectedId (run [NgOnInit None, AgentsResult 0 (Inr [agentA, agentB]), SelectionChange 0,
                    AgentResult 1 (Inr agentA), Elapse 5000] init) = Some ''a1''
   \<and> pending (run [NgOnInit None, AgentsResult 0 (Inr [agentA, agentB]), SelectionChange 0,
                    AgentResult 1 (Inr agentA), Elapse 5000] init) = [(2, PollReq ''a1'')]
   \<and> selectedId (run [NgOnInit None, AgentsResult 0 (Inr [agentA, agentB]), SelectionChange 0,
                    AgentResult 1 (Inr agentA), Elapse 5000, SelectionChange 1] init) = Some ''b2''
   \<and> selectedId (run [NgOnInit None, AgentsResult 0 (Inr [agentA, agentB]), SelectionChange 0,
                    AgentResult 1 (Inr agentA), Elapse 5000, SelectionChange 1,
                    AgentResult 2 (Inr (agentA\<lparr>status := RUNNING\<rparr>))] init) = Some ''a1''
   \<and> selectedAgent (run [NgOnInit None, AgentsResult 0 (Inr [agentA, agentB]), SelectionChange 0,
                    AgentResult 1 (Inr agentA), Elapse 5000, SelectionChange 1,
                    AgentResult 2 (Inr (agentA\<lparr>status := RUNNING\<rparr>))] init) = Some 3
   \<and> heap (run [NgOnInit None, AgentsResult 0 (Inr [agentA, agentB]), SelectionChange 0,
                    AgentResult 1 (Inr agentA), Elapse 5000, SelectionChange 1,
                    AgentResult 2 (Inr (agentA\<lparr>status := RUNNING\<rparr>))] init) ! 3
       = agentA\<lparr>status := RUNNING\<rparr>
   \<and> pending (run [NgOnInit None, AgentsResult 0 (Inr [agentA, agentB]), SelectionChange 0,
                    AgentResult 1 (Inr agentA), Elapse 5000, SelectionChange 1,
                    AgentResult 2 (Inr (agentA\<lparr>status := RUNNING\<rparr>))] init) = [(3, SelectReq ''b2'')]"
proof -
  have split: "run (NgOnInit None # AgentsResult 0 (Inr [agentA, agentB]) # SelectionChange 0 #
                    AgentResult 1 (Inr agentA) # Elapse 5000 # es) init
       = run es (advance 5000 (run [NgOnInit None, AgentsResult 0 (Inr [agentA, agentB]),
                    SelectionChange 0, AgentResult 1 (Inr agentA)] init))" for es
    by simp
  show ?thesis
    unfolding split boundA boundA_5000
    by (simp add: selectedId_def selectionChange_def selectAgent_def http_def agentResult_def
        pollResult_def poll_next_def settle_def agentA_def agentB_def init_def)
qed

section \<open>A failed selection\<close>






end
